theory Spec2Isabelle
  imports Main "HOL-Library.Sublist"
begin

section \<open>Python strings and paths\<close>

text \<open>
  Python's \<^verbatim>\<open>str\<close> is modelled as \<^typ>\<open>string\<close>. The three characters the program
  inspects (the path separator, the dot and the line feed) are ASCII, so reading a character
  as a byte does not change any test the program makes.
\<close>

definition rstrip :: "char \<Rightarrow> string \<Rightarrow> string" where
  \<comment> \<open>\<^verbatim>\<open>s.rstrip(c)\<close> for a one-character argument: every trailing \<open>c\<close> is removed.\<close>
  "rstrip c s = rev (dropWhile (\<lambda>x. x = c) (rev s))"

fun str_split :: "char \<Rightarrow> string \<Rightarrow> string list" where
  \<comment> \<open>\<^verbatim>\<open>s.split(c)\<close>: cuts at every \<open>c\<close>, keeping the empty pieces.\<close>
  "str_split c [] = [[]]"
| "str_split c (x # xs) =
     (if x = c then [] # str_split c xs
      else (case str_split c xs of w # ws \<Rightarrow> (x # w) # ws | [] \<Rightarrow> [[x]]))"

definition rfind :: "char \<Rightarrow> string \<Rightarrow> int" where
  \<comment> \<open>\<^verbatim>\<open>s.rfind(c)\<close>: the index of the last \<open>c\<close>, or \<open>-1\<close>.\<close>
  "rfind c s = (case dropWhile (\<lambda>x. x \<noteq> c) (rev s) of [] \<Rightarrow> - 1 | _ # pre \<Rightarrow> int (length pre))"

fun join :: "string \<Rightarrow> string list \<Rightarrow> string" where
  \<comment> \<open>\<^verbatim>\<open>sep.join(xs)\<close>\<close>
  "join sep [] = []"
| "join sep [x] = x"
| "join sep (x # y # ys) = x @ sep @ join sep (y # ys)"

subsection \<open>\<^verbatim>\<open>pathlib.Path(p).stem\<close> on a POSIX system\<close>

definition splitroot :: "string \<Rightarrow> string \<times> string \<times> string" where
  \<comment> \<open>\<^verbatim>\<open>posixpath.splitroot\<close>: drive (always empty), root, rest.\<close>
  "splitroot p =
     (if take 1 p \<noteq> ''/'' then ('''', '''', p)
      else if take 1 (drop 1 p) \<noteq> ''/'' \<or> take 1 (drop 2 p) = ''/'' then ('''', ''/'', drop 1 p)
      else ('''', ''//'', drop 2 p))"

definition parse_path :: "string \<Rightarrow> string \<times> string \<times> string list" where
  \<comment> \<open>\<^verbatim>\<open>PurePath._parse_path\<close>: the components of the rest that are neither empty nor a
      single dot. (The branch that repairs a drive never runs: the POSIX drive is empty.)\<close>
  "parse_path path =
     (if path = [] then ('''', '''', [])
      else (case splitroot path of
              (drv, root, rel) \<Rightarrow>
                (drv, root, filter (\<lambda>x. x \<noteq> [] \<and> x \<noteq> ''.'') (str_split CHR ''/'' rel))))"

definition path_name :: "string \<Rightarrow> string" where
  \<comment> \<open>\<^verbatim>\<open>PurePath.name\<close>: the final component, if any.\<close>
  "path_name path = (case parse_path path of (drv, root, tail) \<Rightarrow> if tail = [] then '''' else last tail)"

definition stem :: "string \<Rightarrow> string" where
  \<comment> \<open>\<^verbatim>\<open>PurePath.stem\<close>: the final component minus its last suffix. A leading dot and a
      trailing dot do not start a suffix.\<close>
  "stem path =
     (let name = path_name path; i = rfind CHR ''.'' name
      in if 0 < i \<and> i < int (length name) - 1 then take (nat i) name else name)"

subsection \<open>The two names \<^verbatim>\<open>build_workflow\<close> derives from a slug\<close>

definition slug_clean :: "string \<Rightarrow> string" where
  \<comment> \<open>\<^verbatim>\<open>slug_clean = slug_path.rstrip('/')\<close>\<close>
  "slug_clean slug_path = rstrip CHR ''/'' slug_path"

definition slug_name_no_ext :: "string \<Rightarrow> string" where
  \<comment> \<open>\<^verbatim>\<open>slug_name_no_ext = Path(slug_clean).stem\<close>\<close>
  "slug_name_no_ext slug_path = stem (slug_clean slug_path)"

section \<open>Python values\<close>

text \<open>
  The document is built from strings, dicts and one list. A list is a mutable object that
  the program reaches through a reference and changes in place
  (\<^verbatim>\<open>workflow['jobs']['run-autograding-tests']['steps'].append(...)\<close>), and the list
  representer compares lists by identity (\<^verbatim>\<open>parent[k] is data\<close>). So a list value is
  an address into a heap of list cells. A dict is never changed after it is created and
  never compared by identity, so it is a value: its items in insertion order. Every dict
  key in the program is a string.
\<close>

type_synonym addr = nat

datatype pyval =
    PStr string
  | PDict "(string \<times> pyval) list"
  | PList addr
  | PTuple "pyval list"
  | PBlankLine  \<comment> \<open>an instance of the class \<^verbatim>\<open>BlankLine\<close>\<close>

datatype error =
    KeyError | TypeError | AttributeError | RecursionError
  | FileNotFoundError | IsADirectoryError | NotADirectoryError | PermissionError

datatype heap = Heap (cells: "addr \<Rightarrow> pyval list") (next_free: addr)

definition alloc :: "heap \<Rightarrow> pyval list \<Rightarrow> addr \<times> heap" where
  \<comment> \<open>a list display \<^verbatim>\<open>[...]\<close> creates a new list object\<close>
  "alloc h xs = (next_free h, Heap ((cells h)(next_free h := xs)) (Suc (next_free h)))"

definition heap_append :: "heap \<Rightarrow> addr \<Rightarrow> pyval \<Rightarrow> heap" where
  "heap_append h a v = Heap ((cells h)(a := cells h a @ [v])) (next_free h)"

definition list_append :: "heap \<Rightarrow> pyval \<Rightarrow> pyval \<Rightarrow> error + heap" where
  \<comment> \<open>\<^verbatim>\<open>x.append(v)\<close>; only a list has the method\<close>
  "list_append h x v = (case x of PList a \<Rightarrow> Inr (heap_append h a v) | _ \<Rightarrow> Inl AttributeError)"

definition getitem :: "pyval \<Rightarrow> string \<Rightarrow> error + pyval" where
  \<comment> \<open>\<^verbatim>\<open>d[k]\<close> for a string \<open>k\<close>\<close>
  "getitem d k =
     (case d of
        PDict kvs \<Rightarrow> (case map_of kvs k of Some v \<Rightarrow> Inr v | None \<Rightarrow> Inl KeyError)
      | _ \<Rightarrow> Inl TypeError)"

fun dict_set :: "(string \<times> pyval) list \<Rightarrow> string \<Rightarrow> pyval \<Rightarrow> (string \<times> pyval) list" where
  \<comment> \<open>\<^verbatim>\<open>d[k] = v\<close>: a key already present keeps its position and takes the new value,
      a new key goes to the end\<close>
  "dict_set [] k v = [(k, v)]"
| "dict_set ((k', v') # d) k v = (if k' = k then (k', v) # d else (k', v') # dict_set d k v)"

section \<open>The request\<close>

record Namespace =
  slugs :: "string list"
  force :: bool
  outfile :: string

section \<open>\<^verbatim>\<open>build_workflow\<close>\<close>

definition dquote :: string where
  "dquote = [CHR 0x22]"

definition checkout_step :: pyval where
  "checkout_step = PDict [(''uses'', PStr ''actions/checkout@v4'')]"

definition install_step :: pyval where
  "install_step = PDict
     [(''name'', PStr ''Install dependencies (node, git, jq)''),
      (''run'', PStr (''apt-get update\<newline>'' @
                     ''apt-get install -y nodejs git jq\<newline>'' @
                     ''apt-get clean\<newline>'' @
                     ''rm -rf /var/lib/apt/lists/*\<newline>''))]"

definition grading_step :: "string \<Rightarrow> string \<Rightarrow> pyval" where
  \<comment> \<open>the first dict appended in the loop body, from \<^verbatim>\<open>slug_clean\<close> and
      \<^verbatim>\<open>slug_name_no_ext\<close>\<close>
  "grading_step clean name = PDict
     [(''name'', PStr name),
      (''id'', PStr name),
      (''uses'', PStr ''classroom-resources/autograding-command-grader@v1''),
      (''with'', PDict
         [(''test-name'', PStr name),
          (''setup-command'', PStr (''pip uninstall -y check50\<newline>'' @
             ''pip install --no-cache-dir git+https://github.com/dhodcz2/check50.git\<newline>'')),
          (''command'', PStr (''check50 '' @ clean @ '' --dev -o json '' @
             ''--autograder ./autograder/'' @ name @ ''.json '' @
             ''--feedback ./feedback/'' @ name @ ''.txt''))])]"

definition export_step :: "string \<Rightarrow> pyval" where
  \<comment> \<open>the second dict appended in the loop body\<close>
  "export_step name = PDict
     [(''name'', PStr (''Assign file contents to '' @ name @ ''_RESULTS'')),
      (''run'', PStr (''echo '' @ dquote @ name @ ''_RESULTS=$(base64 -w0 ./'' @ name @ ''.json)'' @
                     dquote @ '' >> $GITHUB_ENV''))]"

definition env_map :: "string list \<Rightarrow> (string \<times> pyval) list" where
  \<comment> \<open>the dict comprehension over \<^verbatim>\<open>slug_names\<close>: one assignment per name, in order\<close>
  "env_map slug_names =
     foldl (\<lambda>d s. dict_set d (s @ ''_RESULTS'') (PStr (''${{ env.'' @ s @ ''_RESULTS }}''))) [] slug_names"

definition reporter_step :: "string list \<Rightarrow> pyval" where
  "reporter_step slug_names = PDict
     [(''name'', PStr ''Autograding Reporter''),
      (''uses'', PStr ''classroom-resources/autograding-grading-reporter@v1''),
      (''env'', PDict (env_map slug_names)),
      (''with'', PDict [(''runners'', PStr (join '' '' slug_names))])]"

definition steps_append :: "heap \<Rightarrow> pyval \<Rightarrow> pyval \<Rightarrow> error + heap" where
  \<comment> \<open>\<^verbatim>\<open>workflow['jobs']['run-autograding-tests']['steps'].append(step)\<close>\<close>
  "steps_append h workflow step =
     (case getitem workflow ''jobs'' of Inl e \<Rightarrow> Inl e | Inr jobs \<Rightarrow>
      case getitem jobs ''run-autograding-tests'' of Inl e \<Rightarrow> Inl e | Inr job \<Rightarrow>
      case getitem job ''steps'' of Inl e \<Rightarrow> Inl e | Inr steps \<Rightarrow>
      list_append h steps step)"

fun slug_loop :: "pyval \<Rightarrow> string list \<Rightarrow> heap \<Rightarrow> string list \<Rightarrow> error + heap \<times> string list" where
  \<comment> \<open>\<^verbatim>\<open>for slug_path in args.slugs\<close>, on the heap and the local list \<^verbatim>\<open>slug_names\<close>\<close>
  "slug_loop workflow [] h slug_names = Inr (h, slug_names)"
| "slug_loop workflow (slug_path # rest) h slug_names =
     (let clean = slug_clean slug_path;
          name = slug_name_no_ext slug_path;
          slug_names1 = slug_names @ [name]
      in case steps_append h workflow (grading_step clean name) of Inl e \<Rightarrow> Inl e | Inr h1 \<Rightarrow>
         case steps_append h1 workflow (export_step name) of Inl e \<Rightarrow> Inl e | Inr h2 \<Rightarrow>
         slug_loop workflow rest h2 slug_names1)"

definition initial_workflow :: "addr \<Rightarrow> pyval" where
  \<comment> \<open>the dict display that opens \<^verbatim>\<open>build_workflow\<close>, around the new steps list\<close>
  "initial_workflow steps = PDict
     [(''name'', PStr ''Autograding Tests''),
      (''on'', PDict [(''push'', PDict []), (''repository_dispatch'', PDict [])]),
      (''permissions'', PDict
         [(''checks'', PStr ''write''), (''actions'', PStr ''read''), (''contents'', PStr ''read'')]),
      (''jobs'', PDict
         [(''run-autograding-tests'', PDict
            [(''container'', PDict [(''image'', PStr ''python:3.12-slim'')]),
             (''runs-on'', PStr ''ubuntu-latest''),
             (''steps'', PList steps)])])]"

definition build_workflow :: "heap \<Rightarrow> Namespace \<Rightarrow> error + heap \<times> pyval" where
  "build_workflow h args =
     (case alloc h [checkout_step, install_step] of
        (steps, h0) \<Rightarrow>
          (let workflow = initial_workflow steps
           in case slug_loop workflow (slugs args) h0 [] of Inl e \<Rightarrow> Inl e | Inr (h1, slug_names) \<Rightarrow>
              case steps_append h1 workflow (reporter_step slug_names) of Inl e \<Rightarrow> Inl e | Inr h2 \<Rightarrow>
              Inr (h2, workflow)))"

definition job_steps :: "heap \<times> pyval \<Rightarrow> error + pyval list" where
  \<comment> \<open>reading \<^verbatim>\<open>workflow['jobs']['run-autograding-tests']['steps']\<close> back as a sequence\<close>
  "job_steps r =
     (case r of (h, workflow) \<Rightarrow>
      case getitem workflow ''jobs'' of Inl e \<Rightarrow> Inl e | Inr jobs \<Rightarrow>
      case getitem jobs ''run-autograding-tests'' of Inl e \<Rightarrow> Inl e | Inr job \<Rightarrow>
      case getitem job ''steps'' of Inl e \<Rightarrow> Inl e | Inr steps \<Rightarrow>
      (case steps of PList a \<Rightarrow> Inr (cells h a) | _ \<Rightarrow> Inl TypeError))"

definition empty_heap :: heap where
  "empty_heap = Heap (\<lambda>a. []) 0"

section \<open>The representer of the YAML library\<close>

text \<open>
  \<^verbatim>\<open>yaml.dump\<close> first turns the document into a tree of nodes and then emits the tree as
  text. The program customises the first stage only, so that stage is modelled: the node
  tree, the table that selects a representer by the exact type of the value, and the
  library representers the document reaches. The configuration is the one \<^verbatim>\<open>main\<close>
  passes: no default scalar style, block style for collections, keys in insertion order.
  No list or dict of the document is reachable twice, so anchors and aliases do not arise
  and are left out. The emitter is a parameter of \<open>main\<close> below.
\<close>

datatype node =
    ScalarNode string string "char option"  \<comment> \<open>tag, value, requested style\<close>
  | SequenceNode string "node list" bool  \<comment> \<open>tag, items, flow style\<close>
  | MappingNode string "(node \<times> node) list" bool  \<comment> \<open>tag, items, flow style\<close>

datatype pytype = TStr | TDict | TList | TTuple | TBlankLine

fun type_of :: "pyval \<Rightarrow> pytype" where
  "type_of (PStr s) = TStr"
| "type_of (PDict d) = TDict"
| "type_of (PList a) = TList"
| "type_of (PTuple t) = TTuple"
| "type_of PBlankLine = TBlankLine"

datatype representer =
    SafeRepresenter_represent_str
  | SafeRepresenter_represent_dict
  | SafeRepresenter_represent_list
  | Representer_represent_tuple
  | Fn_str_presenter
  | Fn_blank_line_presenter
  | Fn_represent_list_with_extra_blank_lines

record dumper_class =
  yaml_representers :: "pytype \<rightharpoonup> representer"  \<comment> \<open>the table \<^verbatim>\<open>represent_data\<close> reads\<close>
  represent_list :: representer  \<comment> \<open>the class attribute of that name\<close>

definition Dumper :: dumper_class where
  \<comment> \<open>\<^verbatim>\<open>yaml.Dumper\<close>, restricted to the types of the model\<close>
  "Dumper =
     \<lparr>yaml_representers =
        [TStr \<mapsto> SafeRepresenter_represent_str,
         TDict \<mapsto> SafeRepresenter_represent_dict,
         TList \<mapsto> SafeRepresenter_represent_list,
         TTuple \<mapsto> Representer_represent_tuple],
      represent_list = SafeRepresenter_represent_list\<rparr>"

definition add_representer :: "dumper_class \<Rightarrow> pytype \<Rightarrow> representer \<Rightarrow> dumper_class" where
  \<comment> \<open>\<^verbatim>\<open>cls.add_representer(data_type, representer)\<close>: an entry of the table\<close>
  "add_representer cls t r = cls\<lparr>yaml_representers := (yaml_representers cls)(t \<mapsto> r)\<rparr>"

definition represent_scalar :: "string \<Rightarrow> string \<Rightarrow> char option \<Rightarrow> node" where
  "represent_scalar tag v style = ScalarNode tag v style"

fun represent_items ::
  "(heap \<Rightarrow> pyval \<Rightarrow> error + heap \<times> node) \<Rightarrow> heap \<Rightarrow> pyval list \<Rightarrow> error + heap \<times> node list" where
  "represent_items rec h [] = Inr (h, [])"
| "represent_items rec h (item # rest) =
     (case rec h item of Inl e \<Rightarrow> Inl e | Inr (h1, n) \<Rightarrow>
      case represent_items rec h1 rest of Inl e \<Rightarrow> Inl e | Inr (h2, ns) \<Rightarrow> Inr (h2, n # ns))"

definition represent_sequence ::
  "(heap \<Rightarrow> pyval \<Rightarrow> error + heap \<times> node) \<Rightarrow> string \<Rightarrow> heap \<Rightarrow> pyval list \<Rightarrow> error + heap \<times> node" where
  "represent_sequence rec tag h items =
     (case represent_items rec h items of Inl e \<Rightarrow> Inl e
      | Inr (h1, ns) \<Rightarrow> Inr (h1, SequenceNode tag ns False))"

fun represent_pairs ::
  "(heap \<Rightarrow> pyval \<Rightarrow> error + heap \<times> node) \<Rightarrow> heap \<Rightarrow> (string \<times> pyval) list \<Rightarrow>
     error + heap \<times> (node \<times> node) list" where
  "represent_pairs rec h [] = Inr (h, [])"
| "represent_pairs rec h ((k, v) # rest) =
     (case rec h (PStr k) of Inl e \<Rightarrow> Inl e | Inr (h1, nk) \<Rightarrow>
      case rec h1 v of Inl e \<Rightarrow> Inl e | Inr (h2, nv) \<Rightarrow>
      case represent_pairs rec h2 rest of Inl e \<Rightarrow> Inl e | Inr (h3, ns) \<Rightarrow> Inr (h3, (nk, nv) # ns))"

definition represent_mapping ::
  "(heap \<Rightarrow> pyval \<Rightarrow> error + heap \<times> node) \<Rightarrow> string \<Rightarrow> heap \<Rightarrow> (string \<times> pyval) list \<Rightarrow> error + heap \<times> node" where
  "represent_mapping rec tag h kvs =
     (case represent_pairs rec h kvs of Inl e \<Rightarrow> Inl e
      | Inr (h1, ns) \<Rightarrow> Inr (h1, MappingNode tag ns False))"

section \<open>The program's representers\<close>

definition str_presenter :: "string \<Rightarrow> node" where
  "str_presenter data =
     (if CHR 0x0A \<in> set data then represent_scalar ''tag:yaml.org,2002:str'' data (Some CHR ''|'')
      else represent_scalar ''tag:yaml.org,2002:str'' data None)"

definition blank_line_presenter :: node where
  "blank_line_presenter = represent_scalar ''tag:yaml.org,2002:str'' [] (Some CHR ''|'')"

fun is_steps_parent :: "addr \<Rightarrow> pyval \<Rightarrow> bool" where
  \<comment> \<open>the body of the detection loop for one \<^verbatim>\<open>obj\<close>: a pair whose first component is a
      dict with a key \<^verbatim>\<open>'steps'\<close> bound to this very list\<close>
  "is_steps_parent data (PTuple [PDict parent, uu]) =
     list_ex (\<lambda>k. k = ''steps'' \<and> map_of parent k = Some (PList data)) (map fst parent)"
| "is_steps_parent data obj = False"

fun blank_line_loop :: "addr \<Rightarrow> pyval list \<Rightarrow> heap \<times> bool \<Rightarrow> heap \<times> bool" where
  \<comment> \<open>\<^verbatim>\<open>for item in data\<close>, on the heap and the local flag \<^verbatim>\<open>first\<close>\<close>
  "blank_line_loop new_data [] (h, first) = (h, first)"
| "blank_line_loop new_data (item # rest) (h, first) =
     (let h1 = (if \<not> first then heap_append h new_data PBlankLine else h);
          h2 = heap_append h1 new_data item
      in blank_line_loop new_data rest (h2, False))"

definition represent_list_with_extra_blank_lines ::
  "(heap \<Rightarrow> addr \<Rightarrow> error + 'r) \<Rightarrow> pyval list option \<Rightarrow> heap \<Rightarrow> addr \<Rightarrow> error + 'r" where
  \<comment> \<open>The captured \<^verbatim>\<open>original_list_representer\<close> is the first argument. The second is the
      dumper's attribute \<^verbatim>\<open>recursive_objects\<close>: \<open>None\<close> when the dumper has no such
      attribute, and then reading it raises.\<close>
  "represent_list_with_extra_blank_lines original_list_representer recursive_objects h data =
     (case recursive_objects of
        None \<Rightarrow> Inl AttributeError
      | Some objs \<Rightarrow>
          (let is_steps = list_ex (is_steps_parent data) objs
           in if is_steps \<and> length (cells h data) > 1 then
                (case alloc h [] of
                   (new_data, h0) \<Rightarrow>
                     (case blank_line_loop new_data (cells h data) (h0, True) of
                        (h1, first) \<Rightarrow> original_list_representer h1 new_data))
              else original_list_representer h data))"

subsection \<open>The module's statements on the dumper class\<close>

definition registered_presenters :: dumper_class where
  \<comment> \<open>the subclass of \<^verbatim>\<open>yaml.Dumper\<close> after the two \<^verbatim>\<open>add_representer\<close> calls\<close>
  "registered_presenters =
     add_representer (add_representer Dumper TStr Fn_str_presenter) TBlankLine Fn_blank_line_presenter"

definition original_list_representer :: representer where
  \<comment> \<open>\<^verbatim>\<open>original_list_representer = BlankLineStepsDumper.represent_list\<close>\<close>
  "original_list_representer = represent_list registered_presenters"

definition BlankLineStepsDumper :: dumper_class where
  \<comment> \<open>\<^verbatim>\<open>BlankLineStepsDumper.represent_list = represent_list_with_extra_blank_lines\<close>:
      an assignment to the class attribute\<close>
  "BlankLineStepsDumper =
     registered_presenters\<lparr>represent_list := Fn_represent_list_with_extra_blank_lines\<rparr>"

section \<open>\<^verbatim>\<open>represent_data\<close>: dispatch through the table\<close>

fun call_library ::
  "representer \<Rightarrow> (heap \<Rightarrow> pyval \<Rightarrow> error + heap \<times> node) \<Rightarrow> heap \<Rightarrow> pyval \<Rightarrow> error + heap \<times> node" where
  "call_library SafeRepresenter_represent_str rec h (PStr s) =
     Inr (h, represent_scalar ''tag:yaml.org,2002:str'' s None)"
| "call_library SafeRepresenter_represent_dict rec h (PDict kvs) =
     represent_mapping rec ''tag:yaml.org,2002:map'' h kvs"
| "call_library SafeRepresenter_represent_list rec h (PList a) =
     represent_sequence rec ''tag:yaml.org,2002:seq'' h (cells h a)"
| "call_library Representer_represent_tuple rec h (PTuple t) =
     represent_sequence rec ''tag:yaml.org,2002:python/tuple'' h t"
| "call_library r rec h data = Inl TypeError"

fun call ::
  "representer \<Rightarrow> (heap \<Rightarrow> pyval \<Rightarrow> error + heap \<times> node) \<Rightarrow> pyval list option \<Rightarrow> heap \<Rightarrow> pyval \<Rightarrow>
     error + heap \<times> node" where
  "call Fn_str_presenter rec ro h (PStr s) = Inr (h, str_presenter s)"
| "call Fn_blank_line_presenter rec ro h data = Inr (h, blank_line_presenter)"
| "call Fn_represent_list_with_extra_blank_lines rec ro h (PList a) =
     represent_list_with_extra_blank_lines
       (\<lambda>h1 a1. call_library original_list_representer rec h1 (PList a1)) ro h a"
| "call Fn_str_presenter rec ro h data = Inl TypeError"
| "call Fn_represent_list_with_extra_blank_lines rec ro h data = Inl TypeError"
| "call r rec ro h data = call_library r rec h data"

primrec represent_data ::
  "nat \<Rightarrow> dumper_class \<Rightarrow> pyval list option \<Rightarrow> heap \<Rightarrow> pyval \<Rightarrow> error + heap \<times> node" where
  \<comment> \<open>The first argument is the recursion depth left. A type without an entry goes to the
      library's multi-representers, which give an instance of a plain class a mapping of
      its attributes under a tag that names the class; of the types here only
      \<^verbatim>\<open>BlankLine\<close> can lack an entry.\<close>
  "represent_data 0 cls ro h data = Inl RecursionError"
| "represent_data (Suc n) cls ro h data =
     (case yaml_representers cls (type_of data) of
        Some r \<Rightarrow> call r (represent_data n cls ro) ro h data
      | None \<Rightarrow>
          (case data of
             PBlankLine \<Rightarrow>
               Inr (h, MappingNode ''tag:yaml.org,2002:python/object:__main__.BlankLine'' [] False)
           | _ \<Rightarrow> Inl TypeError))"

section \<open>The emitter's choice of a scalar style\<close>

text \<open>
  The emitter of the library takes the style a scalar node asks for as a request. Its
  \<^verbatim>\<open>analyze_scalar\<close> decides which styles the text permits, and its
  \<^verbatim>\<open>choose_scalar_style\<close> grants a block style only when the flag \<^verbatim>\<open>allow_block\<close> is
  set. That flag is modelled here, with the three findings of the scan that clear it; the
  dump is made without \<^verbatim>\<open>allow_unicode\<close>, so every character that is not a line feed
  or printable ASCII counts as special.
\<close>

definition special_character :: "char \<Rightarrow> bool" where
  \<comment> \<open>\<^verbatim>\<open>not (ch == '\n' or '\x20' <= ch <= '\x7E')\<close>\<close>
  "special_character ch = (\<not> (ch = CHR 0x0A \<or> (0x20 \<le> (of_char ch :: nat) \<and> (of_char ch :: nat) \<le> 0x7E)))"

fun space_break :: "bool \<Rightarrow> string \<Rightarrow> bool" where
  \<comment> \<open>the scan's flag \<^verbatim>\<open>space_break\<close>: a line feed right after a space. The first
      argument is \<^verbatim>\<open>previous_space\<close>.\<close>
  "space_break previous_space [] = False"
| "space_break previous_space (ch # rest) =
     (if ch = CHR '' '' then space_break True rest
      else if ch = CHR 0x0A then (previous_space \<or> space_break False rest)
      else space_break False rest)"

definition trailing_space :: "string \<Rightarrow> bool" where
  "trailing_space scalar = (scalar \<noteq> [] \<and> last scalar = CHR '' '')"

definition allow_block :: "string \<Rightarrow> bool" where
  \<comment> \<open>\<^verbatim>\<open>analyze_scalar(scalar).allow_block\<close>: never for the empty scalar\<close>
  "allow_block scalar =
     (scalar \<noteq> [] \<and> \<not> trailing_space scalar \<and> \<not> space_break False scalar
        \<and> \<not> list_ex special_character scalar)"

definition choose_scalar_style :: "string \<Rightarrow> char" where
  \<comment> \<open>\<^verbatim>\<open>choose_scalar_style\<close> for a scalar whose node asks for \<^verbatim>\<open>'|'\<close>, as the value of a
      block mapping (not canonical, no flow level, not a simple key): the request is
      granted when a block scalar is allowed, and the scalar is double-quoted otherwise\<close>
  "choose_scalar_style scalar = (if allow_block scalar then CHR ''|'' else CHR 0x22)"

section \<open>The file system\<close>







section \<open>\<^verbatim>\<open>main\<close>\<close>


definition recursion_limit :: nat where
  "recursion_limit = 1000"


section \<open>Reading the results\<close>

text \<open>
  The functions of this section are not in the program: they read a built document, or the
  node tree of a dump, so that the theorems can speak about them.
\<close>

fun getpath :: "pyval \<Rightarrow> string list \<Rightarrow> error + pyval" where
  \<comment> \<open>\<^verbatim>\<open>v[k1][k2]...\<close>\<close>
  "getpath v [] = Inr v"
| "getpath v (k # ks) = (case getitem v k of Inl e \<Rightarrow> Inl e | Inr v1 \<Rightarrow> getpath v1 ks)"

definition built_steps :: "heap \<Rightarrow> Namespace \<Rightarrow> error + pyval list" where
  \<comment> \<open>the steps of the job in the document \<open>build_workflow\<close> returns\<close>
  "built_steps h args = (case build_workflow h args of Inl e \<Rightarrow> Inl e | Inr r \<Rightarrow> job_steps r)"

definition slug_steps :: "string \<Rightarrow> pyval list" where
  \<comment> \<open>the two steps one pass of the loop appends\<close>
  "slug_steps slug_path =
     [grading_step (slug_clean slug_path) (slug_name_no_ext slug_path),
      export_step (slug_name_no_ext slug_path)]"

fun node_value :: "node \<Rightarrow> string \<Rightarrow> node option" where
  \<comment> \<open>the value a mapping node holds under a plain string key\<close>
  "node_value (MappingNode tag kvs flow) k = map_of kvs (ScalarNode ''tag:yaml.org,2002:str'' k None)"
| "node_value n k = None"

fun node_items :: "node \<Rightarrow> node list option" where
  "node_items (SequenceNode tag ns flow) = Some ns"
| "node_items n = None"

definition steps_nodes :: "node \<Rightarrow> node list option" where
  \<comment> \<open>the items of the sequence node under \<^verbatim>\<open>jobs/run-autograding-tests/steps\<close>\<close>
  "steps_nodes doc =
     (case node_value doc ''jobs'' of None \<Rightarrow> None | Some jobs \<Rightarrow>
      case node_value jobs ''run-autograding-tests'' of None \<Rightarrow> None | Some job \<Rightarrow>
      case node_value job ''steps'' of None \<Rightarrow> None | Some steps \<Rightarrow> node_items steps)"

definition rendered_steps :: "heap \<Rightarrow> Namespace \<Rightarrow> error + node list" where
  \<comment> \<open>what \<open>main\<close> hands to the emitter for the steps: build, represent with the program's
      dumper class, read the steps sequence\<close>
  "rendered_steps h args =
     (case build_workflow h args of Inl e \<Rightarrow> Inl e | Inr (h1, workflow) \<Rightarrow>
      case represent_data recursion_limit BlankLineStepsDumper None h1 workflow of
        Inl e \<Rightarrow> Inl e
      | Inr (h2, doc) \<Rightarrow> (case steps_nodes doc of None \<Rightarrow> Inl KeyError | Some ns \<Rightarrow> Inr ns))"

fun scalars_ok :: "node \<Rightarrow> bool" where
  \<comment> \<open>every scalar of the tree asks for the literal style exactly when its value has a
      line feed\<close>
  "scalars_ok (ScalarNode tag v style) = (style = (if CHR 0x0A \<in> set v then Some CHR ''|'' else None))"
| "scalars_ok (SequenceNode tag ns flow) = list_all scalars_ok ns"
| "scalars_ok (MappingNode tag kvs flow) = list_all (\<lambda>kv. scalars_ok (fst kv) \<and> scalars_ok (snd kv)) kvs"

primrec fits :: "nat \<Rightarrow> pyval \<Rightarrow> bool" where
  \<comment> \<open>a value made of strings and dicts only, nested less than \<open>n\<close> deep\<close>
  "fits 0 v = False"
| "fits (Suc n) v =
     (case v of PStr s \<Rightarrow> True | PDict kvs \<Rightarrow> list_all (\<lambda>kv. fits n (snd kv)) kvs | _ \<Rightarrow> False)"

section \<open>Lemmas\<close>

subsection \<open>Stripping, splitting and the stem\<close>

lemma rstrip_idem: "rstrip c (rstrip c s) = rstrip c s"
  by (simp add: rstrip_def)

lemma rstrip_snoc: "rstrip c (s @ [c]) = rstrip c s"
  by (simp add: rstrip_def)

lemma rstrip_id: "s \<noteq> [] \<Longrightarrow> last s \<noteq> c \<Longrightarrow> rstrip c s = s"
  by (cases s rule: rev_cases) (auto simp: rstrip_def)

lemma str_split_not_Nil: "str_split c s \<noteq> []"
  by (induction s) (auto split: list.splits)

lemma str_split_no_sep: "c \<notin> set s \<Longrightarrow> str_split c s = [s]"
  by (induction s) auto

lemma str_split_append: "str_split c (xs @ c # ys) = str_split c xs @ str_split c ys"
proof (induction xs)
  case Nil
  show ?case by simp
next
  case (Cons x xs)
  obtain w ws where "str_split c xs = w # ws"
    using str_split_not_Nil by (cases "str_split c xs") auto
  with Cons show ?case by simp
qed

lemma last_str_split: "c \<notin> set ys \<Longrightarrow> last (str_split c (xs @ c # ys)) = ys"
  by (simp add: str_split_append str_split_no_sep)

lemma last_filter_keep: "xs \<noteq> [] \<Longrightarrow> P (last xs) \<Longrightarrow> last (filter P xs) = last xs"
  by (induction xs) (auto simp: filter_empty_conv)

lemma last_components:
  assumes "CHR ''/'' \<notin> set c" "c \<noteq> []" "c \<noteq> ''.''" "rel = c \<or> (\<exists>d. rel = d @ CHR ''/'' # c)"
  shows "filter (\<lambda>x. x \<noteq> [] \<and> x \<noteq> ''.'') (str_split CHR ''/'' rel) \<noteq> []
       \<and> last (filter (\<lambda>x. x \<noteq> [] \<and> x \<noteq> ''.'') (str_split CHR ''/'' rel)) = c"
proof -
  have l: "last (str_split CHR ''/'' rel) = c"
    using assms by (auto simp: str_split_no_sep last_str_split)
  have "c \<in> set (str_split CHR ''/'' rel)"
    using l str_split_not_Nil last_in_set by metis
  then have ne: "filter (\<lambda>x. x \<noteq> [] \<and> x \<noteq> ''.'') (str_split CHR ''/'' rel) \<noteq> []"
    using assms(2,3) by (auto simp: filter_empty_conv)
  show ?thesis using ne l assms(2,3) by (simp add: last_filter_keep str_split_not_Nil)
qed

lemma path_name_final:
  assumes "CHR ''/'' \<notin> set c" "c \<noteq> []" "c \<noteq> ''.''"
  shows "path_name (d @ ''/'' @ c) = c"
proof -
  let ?p = "d @ ''/'' @ c"
  obtain drv root rel where sr: "splitroot ?p = (drv, root, rel)" by (cases "splitroot ?p") auto
  have "rel = c \<or> (\<exists>d'. rel = d' @ CHR ''/'' # c)"
  proof (cases d)
    case Nil
    then show ?thesis using sr assms by (cases c) (auto simp: splitroot_def split: if_splits)
  next
    case (Cons x d1)
    show ?thesis
    proof (cases d1)
      case Nil
      then show ?thesis using sr assms Cons by (auto simp: splitroot_def split: if_splits)
    next
      case (Cons y d2)
      then show ?thesis using sr assms \<open>d = x # d1\<close> by (auto simp: splitroot_def split: if_splits)
    qed
  qed
  from last_components[OF assms this] sr show ?thesis
    by (simp add: path_name_def parse_path_def)
qed

lemma path_name_single:
  assumes "CHR ''/'' \<notin> set c" "c \<noteq> []" "c \<noteq> ''.''"
  shows "path_name c = c"
proof -
  have "splitroot c = ('''', '''', c)" using assms by (cases c) (auto simp: splitroot_def)
  then show ?thesis using assms by (simp add: path_name_def parse_path_def str_split_no_sep)
qed

lemma rfind_last: "c \<notin> set e \<Longrightarrow> rfind c (b @ c # e) = int (length b)"
proof -
  assume a: "c \<notin> set e"
  have "dropWhile (\<lambda>x. x \<noteq> c) (rev e @ c # rev b) = dropWhile (\<lambda>x. x \<noteq> c) (c # rev b)"
    by (rule dropWhile_append2) (use a in auto)
  then show ?thesis by (simp add: rfind_def)
qed

lemma stem_suffix:
  assumes "CHR ''/'' \<notin> set (b @ e)" "b \<noteq> []" "e \<noteq> []" "CHR ''.'' \<notin> set e"
  shows "stem (d @ ''/'' @ b @ ''.'' @ e) = b" "stem (b @ ''.'' @ e) = b"
proof -
  let ?c = "b @ ''.'' @ e"
  have c: "CHR ''/'' \<notin> set ?c" "?c \<noteq> []" "?c \<noteq> ''.''" using assms by (auto simp: append_eq_Cons_conv)
  have r: "rfind CHR ''.'' ?c = int (length b)" using assms(4) rfind_last[of "CHR ''.''" e b] by simp
  have n1: "path_name (d @ ''/'' @ ?c) = ?c" by (rule path_name_final[OF c])
  have n2: "path_name ?c = ?c" by (rule path_name_single[OF c])
  show "stem (d @ ''/'' @ b @ ''.'' @ e) = b" using assms(2,3) r unfolding stem_def n1 by (simp add: Let_def)
  show "stem (b @ ''.'' @ e) = b" using assms(2,3) r unfolding stem_def n2 by (simp add: Let_def)
qed

lemma stem_plain:
  assumes "CHR ''/'' \<notin> set c" "CHR ''.'' \<notin> set c" "c \<noteq> []"
  shows "stem (d @ ''/'' @ c) = c" "stem c = c"
proof -
  have c: "c \<noteq> ''.''" using assms(2) by auto
  have dw: "dropWhile (\<lambda>x. x \<noteq> CHR ''.'') (rev c) = []"
    using assms(2) by (auto simp: dropWhile_eq_Nil_conv)
  have r: "rfind CHR ''.'' c = - 1"
    unfolding rfind_def dw by simp
  show "stem (d @ ''/'' @ c) = c"
    unfolding stem_def path_name_final[OF assms(1,3) c] using r by (simp add: Let_def)
  show "stem c = c"
    unfolding stem_def path_name_single[OF assms(1,3) c] using r by (simp add: Let_def)
qed

lemma name_idem: "slug_name_no_ext (slug_clean s) = slug_name_no_ext s"
  by (simp add: slug_name_no_ext_def slug_clean_def rstrip_idem)

lemma name_snoc: "slug_name_no_ext (s @ ''/'') = slug_name_no_ext s"
  using rstrip_snoc[of "CHR ''/''" s] by (simp add: slug_name_no_ext_def slug_clean_def)

lemma only_seps: "set s \<subseteq> {CHR ''/''} \<Longrightarrow> slug_clean s = [] \<and> slug_name_no_ext s = []"
proof -
  assume a: "set s \<subseteq> {CHR ''/''}"
  have "dropWhile (\<lambda>x. x = CHR ''/'') (rev s) = []" using a by (auto simp: dropWhile_eq_Nil_conv)
  then have "slug_clean s = []" by (simp add: slug_clean_def rstrip_def)
  then show ?thesis by (simp add: slug_name_no_ext_def stem_def path_name_def parse_path_def rfind_def)
qed

subsection \<open>The builder\<close>

lemma steps_append_initial:
  "steps_append h (initial_workflow a) step = Inr (heap_append h a step)"
  by (simp add: steps_append_def initial_workflow_def getitem_def list_append_def)

lemma slug_loop_initial:
  "slug_loop (initial_workflow a) S h names =
     Inr (Heap ((cells h)(a := cells h a @ concat (map slug_steps S))) (next_free h), names @ map slug_name_no_ext S)"
proof (induction S arbitrary: h names)
  case Nil
  show ?case by simp
next
  case (Cons p S)
  have "slug_loop (initial_workflow a) (p # S) h names =
          slug_loop (initial_workflow a) S (Heap ((cells h)(a := cells h a @ slug_steps p)) (next_free h))
            (names @ [slug_name_no_ext p])"
    by (simp add: steps_append_initial heap_append_def slug_steps_def Let_def)
  also have "\<dots> = Inr (Heap ((cells h)(a := cells h a @ concat (map slug_steps (p # S)))) (next_free h),
                         names @ map slug_name_no_ext (p # S))"
    unfolding Cons.IH by simp
  finally show ?case .
qed

lemma build_workflow_result:
  "build_workflow h args =
     Inr (Heap ((cells h)(next_free h := [checkout_step, install_step] @ concat (map slug_steps (slugs args))
                                  @ [reporter_step (map slug_name_no_ext (slugs args))]))
           (Suc (next_free h)),
          initial_workflow (next_free h))"
  by (simp add: build_workflow_def alloc_def slug_loop_initial steps_append_initial heap_append_def)

lemma job_steps_initial: "job_steps (h, initial_workflow a) = Inr (cells h a)"
  by (simp add: job_steps_def initial_workflow_def getitem_def)

lemma built_steps_eq:
  "built_steps h args = Inr ([checkout_step, install_step] @ concat (map slug_steps (slugs args))
                                  @ [reporter_step (map slug_name_no_ext (slugs args))])"
  by (simp add: built_steps_def build_workflow_result job_steps_initial)

lemma length_slug_steps: "length (concat (map slug_steps S)) = 2 * length S"
  by (induction S) (auto simp: slug_steps_def)

lemma nth_slug_steps:
  "i < length S \<Longrightarrow>
     concat (map slug_steps S) ! (2 * i) = grading_step (slug_clean (S ! i)) (slug_name_no_ext (S ! i)) \<and>
     concat (map slug_steps S) ! (2 * i + 1) = export_step (slug_name_no_ext (S ! i))"
proof (induction S arbitrary: i)
  case Nil
  then show ?case by simp
next
  case (Cons p S)
  show ?case
  proof (cases i)
    case 0
    then show ?thesis by (simp add: slug_steps_def)
  next
    case (Suc j)
    with Cons.prems have "j < length S" by simp
    from Cons.IH[OF this] show ?thesis unfolding Suc by (simp add: slug_steps_def)
  qed
qed

subsection \<open>The environment mapping\<close>

lemma dict_set_keys:
  "map fst (dict_set d k v) = (if k \<in> set (map fst d) then map fst d else map fst d @ [k])"
  by (induction d k v rule: dict_set.induct) auto

lemma dict_set_distinct: "distinct (map fst d) \<Longrightarrow> distinct (map fst (dict_set d k v))"
  by (simp add: dict_set_keys)

lemma map_of_dict_set: "map_of (dict_set d k v) = (map_of d)(k \<mapsto> v)"
  by (induction d k v rule: dict_set.induct) (auto simp: fun_eq_iff)

lemma dict_set_values: "list_all (\<lambda>kv. P (snd kv)) d \<Longrightarrow> P v \<Longrightarrow> list_all (\<lambda>kv. P (snd kv)) (dict_set d k v)"
  by (induction d k v rule: dict_set.induct) auto

lemma env_map_snoc:
  "env_map (names @ [s]) = dict_set (env_map names) (s @ ''_RESULTS'') (PStr (''${{ env.'' @ s @ ''_RESULTS }}''))"
  by (simp add: env_map_def)

lemma env_map_distinct: "distinct (map fst (env_map names))"
  by (induction names rule: rev_induct) (simp_all add: env_map_snoc dict_set_distinct, simp add: env_map_def)

lemma env_map_keys: "set (map fst (env_map names)) = (\<lambda>s. s @ ''_RESULTS'') ` set names"
proof (induction names rule: rev_induct)
  case Nil
  show ?case by (simp add: env_map_def)
next
  case (snoc s names)
  show ?case unfolding env_map_snoc dict_set_keys using snoc by auto
qed

lemma env_map_lookup:
  "s \<in> set names \<Longrightarrow> map_of (env_map names) (s @ ''_RESULTS'') = Some (PStr (''${{ env.'' @ s @ ''_RESULTS }}''))"
proof (induction names rule: rev_induct)
  case Nil
  then show ?case by simp
next
  case (snoc t names)
  show ?case
  proof (cases "s = t")
    case True
    then show ?thesis by (simp add: env_map_snoc map_of_dict_set)
  next
    case False
    with snoc show ?thesis by (simp add: env_map_snoc map_of_dict_set)
  qed
qed

lemma env_map_length: "length (env_map names) = card (set names)"
proof -
  have "length (env_map names) = length (map fst (env_map names))" by simp
  also have "\<dots> = card (set (map fst (env_map names)))"
    using env_map_distinct[of names] by (simp only: distinct_card)
  also have "\<dots> = card ((\<lambda>s. s @ ''_RESULTS'') ` set names)" by (simp only: env_map_keys)
  also have "\<dots> = card (set names)" by (rule card_image) (simp add: inj_on_def)
  finally show ?thesis .
qed

lemma env_map_values: "list_all (\<lambda>kv. fits (Suc n) (snd kv)) (env_map names)"
  by (induction names rule: rev_induct) (simp_all add: env_map_snoc dict_set_values, simp add: env_map_def)

subsection \<open>Representing strings and dicts\<close>

lemma table:
  "yaml_representers BlankLineStepsDumper TStr = Some Fn_str_presenter"
  "yaml_representers BlankLineStepsDumper TDict = Some SafeRepresenter_represent_dict"
  "yaml_representers BlankLineStepsDumper TList = Some SafeRepresenter_represent_list"
  "yaml_representers BlankLineStepsDumper TTuple = Some Representer_represent_tuple"
  "yaml_representers BlankLineStepsDumper TBlankLine = Some Fn_blank_line_presenter"
  by (simp_all add: BlankLineStepsDumper_def registered_presenters_def add_representer_def Dumper_def)

lemma represent_str: "represent_data (Suc n) BlankLineStepsDumper ro h (PStr s) = Inr (h, str_presenter s)"
  by (simp add: table)

lemma fits_mono: "fits n v \<Longrightarrow> fits (Suc n) v"
proof (induction n arbitrary: v)
  case 0
  then show ?case by simp
next
  case (Suc n)
  show ?case
  proof (cases v)
    case (PDict kvs)
    with Suc.prems have "list_all (\<lambda>kv. fits n (snd kv)) kvs" by simp
    then have "list_all (\<lambda>kv. fits (Suc n) (snd kv)) kvs"
      using Suc.IH by (auto simp: list_all_iff)
    with PDict show ?thesis by simp
  qed (use Suc.prems in auto)
qed

lemma fits_add: "fits n v \<Longrightarrow> fits (n + k) v"
  by (induction k) (auto dest: fits_mono)

lemma represent_pairs_fits:
  assumes "\<And>v h. fits n v \<Longrightarrow> \<exists>nd. rec h v = Inr (h, nd) \<and> scalars_ok nd"
    and "\<And>k h. rec h (PStr k) = Inr (h, str_presenter k)"
    and "list_all (\<lambda>kv. fits n (snd kv)) kvs"
  shows "\<exists>ns. represent_pairs rec h kvs = Inr (h, ns) \<and> list_all (\<lambda>kv. scalars_ok (fst kv) \<and> scalars_ok (snd kv)) ns"
  using assms(3)
proof (induction kvs)
  case Nil
  show ?case by simp
next
  case (Cons kv kvs)
  obtain k v where kv: "kv = (k, v)" by (cases kv) auto
  from Cons.prems kv have "fits n v" by simp
  then obtain nd where nd: "rec h v = Inr (h, nd)" "scalars_ok nd" using assms(1) by blast
  from Cons obtain ns where ns: "represent_pairs rec h kvs = Inr (h, ns)"
     "list_all (\<lambda>kv. scalars_ok (fst kv) \<and> scalars_ok (snd kv)) ns" by auto
  show ?case using kv nd ns assms(2) by (simp add: str_presenter_def represent_scalar_def)
qed

lemma represent_fits:
  "fits n v \<Longrightarrow> \<exists>nd. represent_data n BlankLineStepsDumper ro h v = Inr (h, nd) \<and> scalars_ok nd"
proof (induction n arbitrary: v h)
  case 0
  then show ?case by simp
next
  case (Suc n)
  show ?case
  proof (cases v)
    case (PStr s)
    then show ?thesis by (simp add: table str_presenter_def represent_scalar_def)
  next
    case (PDict kvs)
    with Suc.prems have all: "list_all (\<lambda>kv. fits n (snd kv)) kvs" by simp
    show ?thesis
    proof (cases n)
      case 0
      with all have "kvs = []" by (cases kvs) auto
      then show ?thesis using PDict by (simp add: table represent_mapping_def)
    next
      case (Suc m)
      have str: "\<And>k h. represent_data n BlankLineStepsDumper ro h (PStr k) = Inr (h, str_presenter k)"
        unfolding Suc by (rule represent_str)
      from represent_pairs_fits[of n "represent_data n BlankLineStepsDumper ro", OF Suc.IH str all]
      obtain ns where "represent_pairs (represent_data n BlankLineStepsDumper ro) h kvs = Inr (h, ns)"
        "list_all (\<lambda>kv. scalars_ok (fst kv) \<and> scalars_ok (snd kv)) ns" by blast
      then show ?thesis using PDict by (simp add: table represent_mapping_def)
    qed
  qed (use Suc.prems in auto)
qed

lemma fits_steps:
  "fits 3 checkout_step" "fits 3 install_step" "fits 3 (grading_step c n)" "fits 3 (export_step n)"
  "fits 3 (reporter_step names)"
  using env_map_values[of 0 names]
  by (simp_all add: eval_nat_numeral checkout_step_def install_step_def grading_step_def export_step_def reporter_step_def)

lemma str_presenter_not_blank: "str_presenter s \<noteq> blank_line_presenter"
  by (auto simp: str_presenter_def blank_line_presenter_def represent_scalar_def)

lemma represent_fits_not_blank:
  "fits n v \<Longrightarrow> represent_data n BlankLineStepsDumper ro h v = Inr (h1, nd) \<Longrightarrow> nd \<noteq> blank_line_presenter"
proof (cases n)
  case 0
  assume "fits n v" with 0 show ?thesis by simp
next
  case (Suc m)
  assume f: "fits n v" and r: "represent_data n BlankLineStepsDumper ro h v = Inr (h1, nd)"
  show ?thesis
  proof (cases v)
    case (PStr s)
    with r Suc show ?thesis using str_presenter_not_blank[of s] by (auto simp: table)
  next
    case (PDict kvs)
    with r Suc show ?thesis
      by (auto simp: table represent_mapping_def blank_line_presenter_def represent_scalar_def
               split: sum.splits prod.splits)
  qed (use f Suc in auto)
qed

lemma represent_items_fits:
  assumes "list_all (fits n) items"
  shows "\<exists>ns. represent_items (represent_data n BlankLineStepsDumper ro) h items = Inr (h, ns)
            \<and> length ns = length items \<and> list_all scalars_ok ns \<and> blank_line_presenter \<notin> set ns"
  using assms
proof (induction items)
  case Nil
  show ?case by simp
next
  case (Cons v items)
  then have fv: "fits n v" by simp
  from represent_fits[OF fv] obtain nd where
    nd: "represent_data n BlankLineStepsDumper ro h v = Inr (h, nd)" "scalars_ok nd" by blast
  have nb: "nd \<noteq> blank_line_presenter" by (rule represent_fits_not_blank[OF fv nd(1)])
  from Cons obtain ns where
    ns: "represent_items (represent_data n BlankLineStepsDumper ro) h items = Inr (h, ns)"
        "length ns = length items" "list_all scalars_ok ns" "blank_line_presenter \<notin> set ns" by auto
  show ?case using nd nb ns by auto
qed

subsection \<open>Representing a built document\<close>

lemma represent_initial_workflow:
  assumes "list_all (fits 3) (cells h a)"
  shows "\<exists>nd ns. represent_data (7 + k) BlankLineStepsDumper ro h (initial_workflow a) = Inr (h, nd)
            \<and> scalars_ok nd \<and> steps_nodes nd = Some ns \<and> length ns = length (cells h a)
            \<and> blank_line_presenter \<notin> set ns"
proof -
  have "list_all (fits (3 + k)) (cells h a)"
    using assms by (auto simp: list_all_iff dest: fits_add)
  from represent_items_fits[OF this, of ro h] obtain ns where
    ns: "represent_items (represent_data (3 + k) BlankLineStepsDumper ro) h (cells h a) = Inr (h, ns)"
        "length ns = length (cells h a)" "list_all scalars_ok ns" "blank_line_presenter \<notin> set ns" by blast
  have f: "7 + k = Suc (Suc (Suc (Suc (Suc (Suc (Suc k))))))" "3 + k = Suc (Suc (Suc k))" by simp_all
  show ?thesis
    using ns unfolding f
    by (simp add: initial_workflow_def table represent_mapping_def represent_sequence_def
          str_presenter_def represent_scalar_def steps_nodes_def)
qed

lemma dump_built:
  "\<exists>h1 w nd ns. build_workflow h args = Inr (h1, w)
      \<and> represent_data recursion_limit BlankLineStepsDumper ro h1 w = Inr (h1, nd)
      \<and> scalars_ok nd \<and> steps_nodes nd = Some ns
      \<and> length ns = 2 + 2 * length (slugs args) + 1 \<and> blank_line_presenter \<notin> set ns"
proof -
  let ?steps = "[checkout_step, install_step] @ concat (map slug_steps (slugs args))
                  @ [reporter_step (map slug_name_no_ext (slugs args))]"
  let ?h1 = "Heap ((cells h)(next_free h := ?steps)) (Suc (next_free h))"
  have b: "build_workflow h args = Inr (?h1, initial_workflow (next_free h))"
    by (rule build_workflow_result)
  have "list_all (fits 3) (concat (map slug_steps (slugs args)))"
    by (induction "slugs args" arbitrary: args) (auto simp: list_all_iff slug_steps_def fits_steps)
  then have f: "list_all (fits 3) (cells ?h1 (next_free h))"
    by (simp add: fits_steps)
  have r: "recursion_limit = 7 + 993" by (simp add: recursion_limit_def)
  from represent_initial_workflow[OF f, of 993 ro] obtain nd ns where
    "represent_data recursion_limit BlankLineStepsDumper ro ?h1 (initial_workflow (next_free h)) = Inr (?h1, nd)"
    "scalars_ok nd" "steps_nodes nd = Some ns" "length ns = length (cells ?h1 (next_free h))"
    "blank_line_presenter \<notin> set ns"
    unfolding r by blast
  with b show ?thesis by (auto simp: length_slug_steps)
qed

lemma rendered_steps_no_blank:
  "\<exists>ns. rendered_steps h args = Inr ns \<and> length ns = 2 + 2 * length (slugs args) + 1
        \<and> blank_line_presenter \<notin> set ns"
  using dump_built[of h args None] by (auto simp: rendered_steps_def)

subsection \<open>The heap during a dump\<close>

lemma represent_items_heap:
  assumes "\<forall>h v h1 nd. rec h v = Inr (h1, nd) \<longrightarrow> h1 = h"
  shows "represent_items rec h items = Inr (h1, ns) \<Longrightarrow> h1 = h"
proof (induction items arbitrary: h h1 ns)
  case Nil
  then show ?case by simp
next
  case (Cons v items)
  from Cons.prems obtain ha n1 ns1 where
    s: "rec h v = Inr (ha, n1)" "represent_items rec ha items = Inr (h1, ns1)"
    by (auto split: sum.splits prod.splits)
  from s(1) assms have "ha = h" by blast
  with Cons.IH[OF s(2)] show ?case by simp
qed

lemma represent_pairs_heap:
  assumes "\<forall>h v h1 nd. rec h v = Inr (h1, nd) \<longrightarrow> h1 = h"
  shows "represent_pairs rec h kvs = Inr (h1, ns) \<Longrightarrow> h1 = h"
proof (induction kvs arbitrary: h h1 ns)
  case Nil
  then show ?case by simp
next
  case (Cons kv kvs)
  obtain k v where kv: "kv = (k, v)" by (cases kv) auto
  from Cons.prems obtain ha nk hb nv ns1 where
    s: "rec h (PStr k) = Inr (ha, nk)" "rec ha v = Inr (hb, nv)"
       "represent_pairs rec hb kvs = Inr (h1, ns1)"
    unfolding kv by (auto split: sum.splits prod.splits)
  from s(1) assms have "ha = h" by blast
  moreover from s(2) assms have "hb = ha" by blast
  ultimately show ?case using Cons.IH[OF s(3)] by simp
qed

lemma represent_data_heap:
  "represent_data n BlankLineStepsDumper ro h v = Inr (h1, nd) \<Longrightarrow> h1 = h"
proof (induction n arbitrary: h v h1 nd)
  case 0
  then show ?case by simp
next
  case (Suc n)
  have pres: "\<forall>h v h1 nd. represent_data n BlankLineStepsDumper ro h v = Inr (h1, nd) \<longrightarrow> h1 = h"
    using Suc.IH by blast
  show ?case
  proof (cases v)
    case (PStr s)
    with Suc.prems show ?thesis by (simp add: table)
  next
    case (PDict kvs)
    with Suc.prems obtain ns where
      "represent_pairs (represent_data n BlankLineStepsDumper ro) h kvs = Inr (h1, ns)"
      by (auto simp: table represent_mapping_def split: sum.splits prod.splits)
    then show ?thesis by (rule represent_pairs_heap[OF pres])
  next
    case (PList a)
    with Suc.prems obtain ns where
      "represent_items (represent_data n BlankLineStepsDumper ro) h (cells h a) = Inr (h1, ns)"
      by (auto simp: table represent_sequence_def split: sum.splits prod.splits)
    then show ?thesis by (rule represent_items_heap[OF pres])
  next
    case (PTuple t)
    with Suc.prems obtain ns where
      "represent_items (represent_data n BlankLineStepsDumper ro) h t = Inr (h1, ns)"
      by (auto simp: table represent_sequence_def split: sum.splits prod.splits)
    then show ?thesis by (rule represent_items_heap[OF pres])
  next
    case PBlankLine
    with Suc.prems show ?thesis by (simp add: table)
  qed
qed

subsection \<open>The list representer of the program\<close>

lemma blank_line_loop_cells:
  "blank_line_loop nd items (h, f) = (h1, f1) \<Longrightarrow>
     next_free h1 = next_free h \<and> (\<forall>a. a \<noteq> nd \<longrightarrow> cells h1 a = cells h a)"
proof (induction items arbitrary: h f)
  case Nil
  then show ?case by simp
next
  case (Cons x items)
  let ?h1 = "if \<not> f then heap_append h nd PBlankLine else h"
  let ?h2 = "heap_append ?h1 nd x"
  from Cons.prems have "blank_line_loop nd items (?h2, False) = (h1, f1)" by (simp add: Let_def)
  from Cons.IH[OF this] show ?case by (simp add: heap_append_def)
qed

lemma blank_line_loop_new:
  "blank_line_loop nd items (h, f) = (h1, f1) \<Longrightarrow>
     cells h1 nd = cells h nd @ (if f then (case items of [] \<Rightarrow> [] | x # xs \<Rightarrow> x # concat (map (\<lambda>i. [PBlankLine, i]) xs))
                                 else concat (map (\<lambda>i. [PBlankLine, i]) items))"
proof (induction items arbitrary: h f)
  case Nil
  then show ?case by simp
next
  case (Cons x items)
  let ?h1 = "if \<not> f then heap_append h nd PBlankLine else h"
  let ?h2 = "heap_append ?h1 nd x"
  from Cons.prems have "blank_line_loop nd items (?h2, False) = (h1, f1)" by (simp add: Let_def)
  from Cons.IH[OF this] show ?case by (simp add: heap_append_def)
qed

lemma extra_blank_lines_heap:
  assumes "represent_list_with_extra_blank_lines (\<lambda>h1 a1. Inr (h1, a1)) ro h data = Inr (h1, a1)"
  shows "(\<forall>a<next_free h. cells h1 a = cells h a) \<and> (a1 = data \<or> a1 = next_free h)"
proof (cases ro)
  case None
  with assms show ?thesis by (simp add: represent_list_with_extra_blank_lines_def)
next
  case (Some objs)
  show ?thesis
  proof (cases "list_ex (is_steps_parent data) objs \<and> length (cells h data) > 1")
    case False
    with assms Some show ?thesis by (auto simp: represent_list_with_extra_blank_lines_def)
  next
    case True
    obtain h2 f2 where l: "blank_line_loop (next_free h) (cells h data)
        (Heap ((cells h)(next_free h := [])) (Suc (next_free h)), True) = (h2, f2)"
      by (cases "blank_line_loop (next_free h) (cells h data)
        (Heap ((cells h)(next_free h := [])) (Suc (next_free h)), True)") auto
    with assms Some True have e: "h1 = h2" "a1 = next_free h"
      by (auto simp: represent_list_with_extra_blank_lines_def alloc_def)
    from blank_line_loop_cells[OF l] show ?thesis unfolding e by auto
  qed
qed

lemma extra_blank_lines_interleave:
  assumes "list_ex (is_steps_parent data) objs" and "cells h data = x # y # ys"
  shows "represent_list_with_extra_blank_lines (\<lambda>h1 a1. Inr (cells h1 a1)) (Some objs) h data
           = Inr (x # concat (map (\<lambda>i. [PBlankLine, i]) (y # ys)))"
proof -
  let ?h0 = "Heap ((cells h)(next_free h := [])) (Suc (next_free h))"
  obtain h2 f2 where l: "blank_line_loop (next_free h) (x # y # ys) (?h0, True) = (h2, f2)"
    by (cases "blank_line_loop (next_free h) (x # y # ys) (?h0, True)") auto
  from blank_line_loop_new[OF l]
  have "cells h2 (next_free h) = x # concat (map (\<lambda>i. [PBlankLine, i]) (y # ys))" by simp
  with l assms show ?thesis
    by (simp add: represent_list_with_extra_blank_lines_def alloc_def)
qed

lemma extra_blank_lines_no_attribute:
  "represent_list_with_extra_blank_lines orig None h data = Inl AttributeError"
  by (simp add: represent_list_with_extra_blank_lines_def)

section \<open>The claims\<close>

subsection \<open>C1: the shape of the steps list\<close>

text \<open>
  C1. For every list of slugs (the empty list included, though the argument parser never
  passes it), \<open>build_workflow\<close> succeeds and the steps list of the job is, entry by entry
  and field by field: the checkout step, the dependency-install step, then for each slug in
  input order its grading step followed by its result-export step, then the reporter step.
  It has \<open>2 + 2 * len(S) + 1\<close> entries. The last conjuncts read the entries by position:
  the fixed steps at 0 and 1, the grading step of the \<open>i\<close>-th slug at \<open>2 + 2 * i\<close>, its
  result-export step right after it, and the reporter step last.
\<close>

theorem build_workflow_steps_shape:
  "\<exists>steps. built_steps h args = Inr steps
     \<and> steps =
         [PDict [(''uses'', PStr ''actions/checkout@v4'')],
          PDict [(''name'', PStr ''Install dependencies (node, git, jq)''),
                 (''run'', PStr ''apt-get update\<newline>apt-get install -y nodejs git jq\<newline>apt-get clean\<newline>rm -rf /var/lib/apt/lists/*\<newline>'')]]
         @ concat (map (\<lambda>slug_path.
             [PDict [(''name'', PStr (slug_name_no_ext slug_path)),
                     (''id'', PStr (slug_name_no_ext slug_path)),
                     (''uses'', PStr ''classroom-resources/autograding-command-grader@v1''),
                     (''with'', PDict
                        [(''test-name'', PStr (slug_name_no_ext slug_path)),
                         (''setup-command'', PStr ''pip uninstall -y check50\<newline>pip install --no-cache-dir git+https://github.com/dhodcz2/check50.git\<newline>''),
                         (''command'', PStr (''check50 '' @ slug_clean slug_path @ '' --dev -o json --autograder ./autograder/''
                             @ slug_name_no_ext slug_path @ ''.json --feedback ./feedback/''
                             @ slug_name_no_ext slug_path @ ''.txt''))])],
              PDict [(''name'', PStr (''Assign file contents to '' @ slug_name_no_ext slug_path @ ''_RESULTS'')),
                     (''run'', PStr (''echo '' @ [CHR 0x22] @ slug_name_no_ext slug_path @ ''_RESULTS=$(base64 -w0 ./''
                             @ slug_name_no_ext slug_path @ ''.json)'' @ [CHR 0x22] @ '' >> $GITHUB_ENV''))]])
             (slugs args))
         @ [PDict [(''name'', PStr ''Autograding Reporter''),
                   (''uses'', PStr ''classroom-resources/autograding-grading-reporter@v1''),
                   (''env'', PDict (env_map (map slug_name_no_ext (slugs args)))),
                   (''with'', PDict [(''runners'', PStr (join '' '' (map slug_name_no_ext (slugs args))))])]]
     \<and> length steps = 2 + 2 * length (slugs args) + 1
     \<and> getpath (steps ! 0) [''uses''] = Inr (PStr ''actions/checkout@v4'')
     \<and> getpath (steps ! 1) [''name''] = Inr (PStr ''Install dependencies (node, git, jq)'')
     \<and> (\<forall>i<length (slugs args).
           getpath (steps ! (2 + 2 * i)) [''id''] = Inr (PStr (slug_name_no_ext (slugs args ! i)))
         \<and> getpath (steps ! (2 + 2 * i)) [''uses'']
               = Inr (PStr ''classroom-resources/autograding-command-grader@v1'')
         \<and> getpath (steps ! (2 + 2 * i)) [''with'', ''command'']
               = Inr (PStr (''check50 '' @ slug_clean (slugs args ! i) @ '' --dev -o json --autograder ./autograder/''
                        @ slug_name_no_ext (slugs args ! i) @ ''.json --feedback ./feedback/''
                        @ slug_name_no_ext (slugs args ! i) @ ''.txt''))
         \<and> getpath (steps ! (3 + 2 * i)) [''name'']
               = Inr (PStr (''Assign file contents to '' @ slug_name_no_ext (slugs args ! i) @ ''_RESULTS''))
         \<and> getpath (steps ! (3 + 2 * i)) [''run'']
               = Inr (PStr (''echo '' @ [CHR 0x22] @ slug_name_no_ext (slugs args ! i) @ ''_RESULTS=$(base64 -w0 ./''
                        @ slug_name_no_ext (slugs args ! i) @ ''.json)'' @ [CHR 0x22] @ '' >> $GITHUB_ENV'')))
     \<and> getpath (last steps) [''uses''] = Inr (PStr ''classroom-resources/autograding-grading-reporter@v1'')
     \<and> getpath (last steps) [''with'', ''runners'']
           = Inr (PStr (join '' '' (map slug_name_no_ext (slugs args))))"
proof -
  let ?steps = "[checkout_step, install_step] @ concat (map slug_steps (slugs args))
                  @ [reporter_step (map slug_name_no_ext (slugs args))]"
  have b: "built_steps h args = Inr ?steps" by (rule built_steps_eq)
  have len: "length ?steps = 2 + 2 * length (slugs args) + 1" by (simp add: length_slug_steps)
  have pos: "?steps ! (2 + 2 * i) = grading_step (slug_clean (slugs args ! i)) (slug_name_no_ext (slugs args ! i))
           \<and> ?steps ! (3 + 2 * i) = export_step (slug_name_no_ext (slugs args ! i))"
    if i: "i < length (slugs args)" for i
  proof -
    have l: "2 * i + 1 < length (concat (map slug_steps (slugs args)))"
      using i by (simp add: length_slug_steps)
    have "?steps ! (2 + 2 * i) = concat (map slug_steps (slugs args)) ! (2 * i)"
      using l by (simp add: nth_append)
    moreover have "?steps ! (3 + 2 * i) = (concat (map slug_steps (slugs args))
            @ [reporter_step (map slug_name_no_ext (slugs args))]) ! (2 * i + 1)"
      by (simp add: numeral_3_eq_3)
    moreover have "\<dots> = concat (map slug_steps (slugs args)) ! (2 * i + 1)"
      using l by (simp add: nth_append)
    ultimately show ?thesis using nth_slug_steps[OF i] by simp
  qed
  have literal: "?steps =
         [PDict [(''uses'', PStr ''actions/checkout@v4'')],
          PDict [(''name'', PStr ''Install dependencies (node, git, jq)''),
                 (''run'', PStr ''apt-get update\<newline>apt-get install -y nodejs git jq\<newline>apt-get clean\<newline>rm -rf /var/lib/apt/lists/*\<newline>'')]]
         @ concat (map (\<lambda>slug_path.
             [PDict [(''name'', PStr (slug_name_no_ext slug_path)),
                     (''id'', PStr (slug_name_no_ext slug_path)),
                     (''uses'', PStr ''classroom-resources/autograding-command-grader@v1''),
                     (''with'', PDict
                        [(''test-name'', PStr (slug_name_no_ext slug_path)),
                         (''setup-command'', PStr ''pip uninstall -y check50\<newline>pip install --no-cache-dir git+https://github.com/dhodcz2/check50.git\<newline>''),
                         (''command'', PStr (''check50 '' @ slug_clean slug_path @ '' --dev -o json --autograder ./autograder/''
                             @ slug_name_no_ext slug_path @ ''.json --feedback ./feedback/''
                             @ slug_name_no_ext slug_path @ ''.txt''))])],
              PDict [(''name'', PStr (''Assign file contents to '' @ slug_name_no_ext slug_path @ ''_RESULTS'')),
                     (''run'', PStr (''echo '' @ [CHR 0x22] @ slug_name_no_ext slug_path @ ''_RESULTS=$(base64 -w0 ./''
                             @ slug_name_no_ext slug_path @ ''.json)'' @ [CHR 0x22] @ '' >> $GITHUB_ENV''))]])
             (slugs args))
         @ [PDict [(''name'', PStr ''Autograding Reporter''),
                   (''uses'', PStr ''classroom-resources/autograding-grading-reporter@v1''),
                   (''env'', PDict (env_map (map slug_name_no_ext (slugs args)))),
                   (''with'', PDict [(''runners'', PStr (join '' '' (map slug_name_no_ext (slugs args))))])]]"
  proof -
    have "slug_steps = (\<lambda>slug_path.
             [PDict [(''name'', PStr (slug_name_no_ext slug_path)),
                     (''id'', PStr (slug_name_no_ext slug_path)),
                     (''uses'', PStr ''classroom-resources/autograding-command-grader@v1''),
                     (''with'', PDict
                        [(''test-name'', PStr (slug_name_no_ext slug_path)),
                         (''setup-command'', PStr ''pip uninstall -y check50\<newline>pip install --no-cache-dir git+https://github.com/dhodcz2/check50.git\<newline>''),
                         (''command'', PStr (''check50 '' @ slug_clean slug_path @ '' --dev -o json --autograder ./autograder/''
                             @ slug_name_no_ext slug_path @ ''.json --feedback ./feedback/''
                             @ slug_name_no_ext slug_path @ ''.txt''))])],
              PDict [(''name'', PStr (''Assign file contents to '' @ slug_name_no_ext slug_path @ ''_RESULTS'')),
                     (''run'', PStr (''echo '' @ [CHR 0x22] @ slug_name_no_ext slug_path @ ''_RESULTS=$(base64 -w0 ./''
                             @ slug_name_no_ext slug_path @ ''.json)'' @ [CHR 0x22] @ '' >> $GITHUB_ENV''))]])"
      by (rule ext) (simp add: slug_steps_def grading_step_def export_step_def dquote_def)
    then show ?thesis
      by (simp add: checkout_step_def install_step_def reporter_step_def)
  qed
  have fields:
    "getpath (grading_step c n) [''id''] = Inr (PStr n)"
    "getpath (grading_step c n) [''uses''] = Inr (PStr ''classroom-resources/autograding-command-grader@v1'')"
    "getpath (grading_step c n) [''with'', ''command'']
       = Inr (PStr (''check50 '' @ c @ '' --dev -o json --autograder ./autograder/'' @ n
                      @ ''.json --feedback ./feedback/'' @ n @ ''.txt''))"
    "getpath (export_step n) [''name''] = Inr (PStr (''Assign file contents to '' @ n @ ''_RESULTS''))"
    "getpath (export_step n) [''run'']
       = Inr (PStr (''echo '' @ [CHR 0x22] @ n @ ''_RESULTS=$(base64 -w0 ./'' @ n @ ''.json)''
                      @ [CHR 0x22] @ '' >> $GITHUB_ENV''))"
    for c n
    by (simp_all add: grading_step_def export_step_def getitem_def dquote_def)
  have fixed:
    "getpath (?steps ! 0) [''uses''] = Inr (PStr ''actions/checkout@v4'')"
    "getpath (?steps ! 1) [''name''] = Inr (PStr ''Install dependencies (node, git, jq)'')"
    "getpath (last ?steps) [''uses''] = Inr (PStr ''classroom-resources/autograding-grading-reporter@v1'')"
    "getpath (last ?steps) [''with'', ''runners''] = Inr (PStr (join '' '' (map slug_name_no_ext (slugs args))))"
    by (simp_all add: checkout_step_def install_step_def reporter_step_def getitem_def)
  have "\<forall>i<length (slugs args).
           getpath (?steps ! (2 + 2 * i)) [''id''] = Inr (PStr (slug_name_no_ext (slugs args ! i)))
         \<and> getpath (?steps ! (2 + 2 * i)) [''uses'']
               = Inr (PStr ''classroom-resources/autograding-command-grader@v1'')
         \<and> getpath (?steps ! (2 + 2 * i)) [''with'', ''command'']
               = Inr (PStr (''check50 '' @ slug_clean (slugs args ! i) @ '' --dev -o json --autograder ./autograder/''
                        @ slug_name_no_ext (slugs args ! i) @ ''.json --feedback ./feedback/''
                        @ slug_name_no_ext (slugs args ! i) @ ''.txt''))
         \<and> getpath (?steps ! (3 + 2 * i)) [''name'']
               = Inr (PStr (''Assign file contents to '' @ slug_name_no_ext (slugs args ! i) @ ''_RESULTS''))
         \<and> getpath (?steps ! (3 + 2 * i)) [''run'']
               = Inr (PStr (''echo '' @ [CHR 0x22] @ slug_name_no_ext (slugs args ! i) @ ''_RESULTS=$(base64 -w0 ./''
                        @ slug_name_no_ext (slugs args ! i) @ ''.json)'' @ [CHR 0x22] @ '' >> $GITHUB_ENV''))"
    using pos fields by simp
  with b len literal fixed show ?thesis
    by (intro exI[of _ ?steps]) (simp only: simp_thms)
qed

theorem build_workflow_steps_shape_witness:
  "built_steps empty_heap \<lparr>slugs = [''example/'', ''example/test2.py''], force = False, outfile = ''out.yml''\<rparr> =
     Inr [PDict [(''uses'', PStr ''actions/checkout@v4'')],
          PDict [(''name'', PStr ''Install dependencies (node, git, jq)''),
                 (''run'', PStr ''apt-get update\<newline>apt-get install -y nodejs git jq\<newline>apt-get clean\<newline>rm -rf /var/lib/apt/lists/*\<newline>'')],
          PDict [(''name'', PStr ''example''),
                 (''id'', PStr ''example''),
                 (''uses'', PStr ''classroom-resources/autograding-command-grader@v1''),
                 (''with'', PDict
                    [(''test-name'', PStr ''example''),
                     (''setup-command'', PStr ''pip uninstall -y check50\<newline>pip install --no-cache-dir git+https://github.com/dhodcz2/check50.git\<newline>''),
                     (''command'', PStr ''check50 example --dev -o json --autograder ./autograder/example.json --feedback ./feedback/example.txt'')])],
          PDict [(''name'', PStr ''Assign file contents to example_RESULTS''),
                 (''run'', PStr (''echo '' @ [CHR 0x22] @ ''example_RESULTS=$(base64 -w0 ./example.json)'' @ [CHR 0x22] @ '' >> $GITHUB_ENV''))],
          PDict [(''name'', PStr ''test2''),
                 (''id'', PStr ''test2''),
                 (''uses'', PStr ''classroom-resources/autograding-command-grader@v1''),
                 (''with'', PDict
                    [(''test-name'', PStr ''test2''),
                     (''setup-command'', PStr ''pip uninstall -y check50\<newline>pip install --no-cache-dir git+https://github.com/dhodcz2/check50.git\<newline>''),
                     (''command'', PStr ''check50 example/test2.py --dev -o json --autograder ./autograder/test2.json --feedback ./feedback/test2.txt'')])],
          PDict [(''name'', PStr ''Assign file contents to test2_RESULTS''),
                 (''run'', PStr (''echo '' @ [CHR 0x22] @ ''test2_RESULTS=$(base64 -w0 ./test2.json)'' @ [CHR 0x22] @ '' >> $GITHUB_ENV''))],
          PDict [(''name'', PStr ''Autograding Reporter''),
                 (''uses'', PStr ''classroom-resources/autograding-grading-reporter@v1''),
                 (''env'', PDict [(''example_RESULTS'', PStr ''${{ env.example_RESULTS }}''),
                                  (''test2_RESULTS'', PStr ''${{ env.test2_RESULTS }}'')]),
                 (''with'', PDict [(''runners'', PStr ''example test2'')])]]"
proof -
  have n: "slug_name_no_ext ''example/'' = ''example''" "slug_name_no_ext ''example/test2.py'' = ''test2''"
          "slug_clean ''example/'' = ''example''" "slug_clean ''example/test2.py'' = ''example/test2.py''"
    by code_simp+
  show ?thesis
    using build_workflow_steps_shape[of empty_heap
      "\<lparr>slugs = [''example/'', ''example/test2.py''], force = False, outfile = ''out.yml''\<rparr>"]
    by (simp add: n env_map_def)
qed

subsection \<open>C2: blank-line markers between the steps\<close>

text \<open>
  C2. The claim does not hold of the program. The library's \<^verbatim>\<open>represent_data\<close> selects the
  representer of a value from the table \<^verbatim>\<open>yaml_representers\<close>. The module enters
  \<^verbatim>\<open>str_presenter\<close> and \<^verbatim>\<open>blank_line_presenter\<close> in that table, but it installs
  \<^verbatim>\<open>represent_list_with_extra_blank_lines\<close> by assigning the class attribute
  \<^verbatim>\<open>represent_list\<close>, which the dispatch never reads: the table still maps lists to the
  library's representer. At the request of the specification's end-to-end scenario the
  steps sequence handed to the emitter has one node per step, seven in all, and none of
  them is the marker's scalar.
\<close>

theorem steps_rendered_without_separators:
  "yaml_representers BlankLineStepsDumper TList = Some SafeRepresenter_represent_list
   \<and> represent_list BlankLineStepsDumper = Fn_represent_list_with_extra_blank_lines
   \<and> (case rendered_steps empty_heap
             \<lparr>slugs = [''example/'', ''example/test2.py''], force = False, outfile = ''out.yml''\<rparr> of
         Inl e \<Rightarrow> False
       | Inr ns \<Rightarrow> length ns = 7 \<and> blank_line_presenter \<notin> set ns)"
proof -
  have t: "yaml_representers BlankLineStepsDumper TList = Some SafeRepresenter_represent_list"
    by (simp add: table)
  have a: "represent_list BlankLineStepsDumper = Fn_represent_list_with_extra_blank_lines"
    by (simp add: BlankLineStepsDumper_def)
  show ?thesis
    using t a rendered_steps_no_blank[of empty_heap
          "\<lparr>slugs = [''example/'', ''example/test2.py''], force = False, outfile = ''out.yml''\<rparr>"]
    by auto
qed

theorem steps_rendered_without_separators_witness:
  "\<exists>ns. rendered_steps empty_heap
             \<lparr>slugs = [''example/'', ''example/test2.py''], force = False, outfile = ''out.yml''\<rparr> = Inr ns
        \<and> length ns = 7"
  using steps_rendered_without_separators by (auto split: sum.splits)

subsection \<open>C3: the file the result-export step reads\<close>

text \<open>
  C3. The claim does not hold of the program. For the slug \<^verbatim>\<open>example/\<close> the grading step's
  command writes its JSON output to \<^verbatim>\<open>./autograder/example.json\<close>, and the result-export
  step that follows encodes \<^verbatim>\<open>./example.json\<close>: its command does not mention the file the
  grading step wrote. The variable it exports is \<^verbatim>\<open>example_RESULTS\<close>, as claimed.
\<close>

theorem export_step_reads_other_file:
  "built_steps empty_heap \<lparr>slugs = [''example/''], force = False, outfile = ''out.yml''\<rparr> =
     Inr [checkout_step, install_step, grading_step ''example'' ''example'', export_step ''example'',
          reporter_step [''example'']]
   \<and> getpath (grading_step ''example'' ''example'') [''with'', ''command''] =
       Inr (PStr ''check50 example --dev -o json --autograder ./autograder/example.json --feedback ./feedback/example.txt'')
   \<and> getpath (export_step ''example'') [''run''] =
       Inr (PStr (''echo '' @ dquote @ ''example_RESULTS=$(base64 -w0 ./example.json)'' @ dquote @ '' >> $GITHUB_ENV''))
   \<and> \<not> sublist ''./autograder/example.json''
         (''echo '' @ dquote @ ''example_RESULTS=$(base64 -w0 ./example.json)'' @ dquote @ '' >> $GITHUB_ENV'')"
proof -
  have n: "slug_name_no_ext ''example/'' = ''example''" "slug_clean ''example/'' = ''example''"
    by code_simp+
  have s: "\<not> sublist ''./autograder/example.json''
         (''echo '' @ dquote @ ''example_RESULTS=$(base64 -w0 ./example.json)'' @ dquote @ '' >> $GITHUB_ENV'')"
    by code_simp
  show ?thesis
    using s by (simp add: built_steps_eq slug_steps_def n grading_step_def export_step_def getitem_def)
qed

theorem export_step_reads_other_file_witness:
  "getpath (export_step ''example'') [''run''] \<noteq> Inr (PStr ''./autograder/example.json'')"
  using export_step_reads_other_file by (simp add: dquote_def)

subsection \<open>C4: the overwrite guard\<close>




subsection \<open>C5: name derivation\<close>

text \<open>
  C5. The three examples of the claim evaluate as stated. Deriving a name from a slug whose
  trailing separators were stripped, or from a slug with one more trailing separator, gives
  the same name. The last two conjuncts say what the name is: for a final component
  \<open>b.e\<close> with a non-empty \<open>b\<close> and a non-empty suffix \<open>e\<close> without a dot the name is \<open>b\<close>,
  and for a final component \<open>b\<close> without a dot it is \<open>b\<close>, whatever directories come
  before.
\<close>

theorem name_derivation:
  "slug_name_no_ext ''foo/bar/'' = ''bar'' \<and> slug_name_no_ext ''foo/bar'' = ''bar''
   \<and> slug_name_no_ext ''bar.py'' = ''bar''
   \<and> slug_name_no_ext (slug_clean s) = slug_name_no_ext s
   \<and> slug_name_no_ext (s @ ''/'') = slug_name_no_ext s
   \<and> (CHR ''/'' \<notin> set (b @ e) \<and> b \<noteq> [] \<and> e \<noteq> [] \<and> CHR ''.'' \<notin> set e \<longrightarrow>
        slug_name_no_ext (d @ ''/'' @ b @ ''.'' @ e) = b \<and> slug_name_no_ext (b @ ''.'' @ e) = b)
   \<and> (CHR ''/'' \<notin> set b \<and> CHR ''.'' \<notin> set b \<and> b \<noteq> [] \<longrightarrow>
        slug_name_no_ext (d @ ''/'' @ b) = b \<and> slug_name_no_ext b = b)"
proof -
  have ex: "slug_name_no_ext ''foo/bar/'' = ''bar''" "slug_name_no_ext ''foo/bar'' = ''bar''"
    "slug_name_no_ext ''bar.py'' = ''bar''"
    by code_simp+
  have suffix: "slug_name_no_ext (d @ ''/'' @ b @ ''.'' @ e) = b \<and> slug_name_no_ext (b @ ''.'' @ e) = b"
    if h: "CHR ''/'' \<notin> set (b @ e)" "b \<noteq> []" "e \<noteq> []" "CHR ''.'' \<notin> set e"
  proof -
    have l: "last e \<noteq> CHR ''/''" using h(1) last_in_set[OF h(3)] by auto
    have "rstrip CHR ''/'' (d @ ''/'' @ b @ ''.'' @ e) = d @ ''/'' @ b @ ''.'' @ e"
      using l h(3) by (intro rstrip_id) auto
    moreover have "rstrip CHR ''/'' (b @ ''.'' @ e) = b @ ''.'' @ e"
      using l h(3) by (intro rstrip_id) auto
    ultimately show ?thesis
      using stem_suffix[OF h] by (simp add: slug_name_no_ext_def slug_clean_def)
  qed
  have plain: "slug_name_no_ext (d @ ''/'' @ b) = b \<and> slug_name_no_ext b = b"
    if h: "CHR ''/'' \<notin> set b" "CHR ''.'' \<notin> set b" "b \<noteq> []"
  proof -
    have l: "last b \<noteq> CHR ''/''" using h(1) last_in_set[OF h(3)] by auto
    have "rstrip CHR ''/'' (d @ ''/'' @ b) = d @ ''/'' @ b"
      using l h(3) by (intro rstrip_id) auto
    moreover have "rstrip CHR ''/'' b = b"
      using l h(3) by (intro rstrip_id) auto
    ultimately show ?thesis
      using stem_plain[OF h] by (simp add: slug_name_no_ext_def slug_clean_def)
  qed
  show ?thesis
    using ex name_idem[of s] name_snoc[of s] suffix plain by blast
qed

theorem name_derivation_witness:
  "slug_name_no_ext (slug_clean ''foo/bar/'') = slug_name_no_ext ''foo/bar/''
   \<and> slug_name_no_ext ''example/test2.py'' = ''test2''
   \<and> slug_name_no_ext ''example/test2'' = ''test2''"
  using name_derivation[of "''foo/bar/''" "''test2''" "''py''" "''example''"]
  by simp

subsection \<open>C6: the reporter's environment mapping\<close>

text \<open>
  C6, as stated, fails where two slugs give the same name: the environment mapping is a
  dict, and a dict holds a key once. For the slugs \<^verbatim>\<open>a\<close> and \<^verbatim>\<open>a\<close> two names are
  produced and the mapping has one entry.
\<close>

theorem reporter_env_counterexample:
  "built_steps empty_heap \<lparr>slugs = [''a'', ''a''], force = False, outfile = ''out.yml''\<rparr> =
     Inr [checkout_step, install_step, grading_step ''a'' ''a'', export_step ''a'',
          grading_step ''a'' ''a'', export_step ''a'', reporter_step [''a'', ''a'']]
   \<and> getpath (reporter_step [''a'', ''a'']) [''env''] = Inr (PDict [(''a_RESULTS'', PStr ''${{ env.a_RESULTS }}'')])
   \<and> length (env_map [''a'', ''a'']) \<noteq> length [''a'', ''a'']"
proof -
  have n: "slug_name_no_ext ''a'' = ''a''" "slug_clean ''a'' = ''a''"
    by code_simp+
  show ?thesis
    by (simp add: built_steps_eq slug_steps_def n reporter_step_def getitem_def env_map_def)
qed

text \<open>
  C6, amended. For every list of slugs, the \<^verbatim>\<open>env\<close> of the reporter step is a mapping with
  exactly one entry per distinct produced name: its keys are pairwise different, they are
  the names with \<^verbatim>\<open>_RESULTS\<close> appended, each key \<^verbatim>\<open><name>_RESULTS\<close> is bound to the
  template expression \<^verbatim>\<open>${{ env.<name>_RESULTS }}\<close>, and the number of entries is the
  number of distinct names.
\<close>

theorem reporter_env:
  "(\<exists>steps. built_steps h args = Inr steps \<and> steps \<noteq> []
      \<and> getpath (last steps) [''env''] = Inr (PDict (env_map (map slug_name_no_ext (slugs args)))))
   \<and> distinct (map fst (env_map (map slug_name_no_ext (slugs args))))
   \<and> set (map fst (env_map (map slug_name_no_ext (slugs args))))
        = (\<lambda>s. s @ ''_RESULTS'') ` set (map slug_name_no_ext (slugs args))
   \<and> (\<forall>s \<in> set (map slug_name_no_ext (slugs args)).
         map_of (env_map (map slug_name_no_ext (slugs args))) (s @ ''_RESULTS'')
           = Some (PStr (''${{ env.'' @ s @ ''_RESULTS }}'')))
   \<and> length (env_map (map slug_name_no_ext (slugs args))) = card (set (map slug_name_no_ext (slugs args)))"
  using env_map_lookup[of _ "map slug_name_no_ext (slugs args)"]
  by (simp add: built_steps_eq reporter_step_def getitem_def env_map_distinct env_map_keys env_map_length
           del: set_map)

theorem reporter_env_witness:
  "map_of (env_map [''a'', ''b'', ''a'']) ''a_RESULTS'' = Some (PStr ''${{ env.a_RESULTS }}'')
   \<and> map_of (env_map [''a'', ''b'', ''a'']) ''b_RESULTS'' = Some (PStr ''${{ env.b_RESULTS }}'')
   \<and> length (env_map [''a'', ''b'', ''a'']) = 2"
proof -
  have n: "slug_name_no_ext ''a.py'' = ''a''" "slug_name_no_ext ''b/'' = ''b''"
    by code_simp+
  have "{''a'', ''b'', ''a''} = {''a'', ''b''}" by auto
  then have c: "card {''a'', ''b'', ''a''} = (2::nat)" by simp
  show ?thesis
    using reporter_env[of empty_heap
      "\<lparr>slugs = [''a.py'', ''b/'', ''a.py''], force = False, outfile = ''out.yml''\<rparr>"]
    by (simp add: n c)
qed

subsection \<open>C7: duplicate slugs and the runners parameter\<close>

text \<open>
  C7. For every list of slugs the builder succeeds, the loop leaves in \<^verbatim>\<open>slug_names\<close> the
  derived name of every slug, one per occurrence and in input order, and the \<^verbatim>\<open>runners\<close>
  parameter of the reporter step is these names joined by single spaces.
\<close>

theorem reporter_runners:
  "(\<exists>steps. built_steps h args = Inr steps \<and> steps \<noteq> []
      \<and> getpath (last steps) [''with'', ''runners'']
            = Inr (PStr (join '' '' (map slug_name_no_ext (slugs args)))))
   \<and> (\<exists>h1. slug_loop (initial_workflow a) (slugs args) h0 [] = Inr (h1, map slug_name_no_ext (slugs args)))
   \<and> length (map slug_name_no_ext (slugs args)) = length (slugs args)"
  by (simp add: built_steps_eq slug_loop_initial reporter_step_def getitem_def)

theorem reporter_runners_witness:
  "(\<exists>steps. built_steps empty_heap \<lparr>slugs = [''a.py'', ''b/'', ''a.py''], force = False, outfile = ''out.yml''\<rparr> = Inr steps
      \<and> steps \<noteq> [] \<and> getpath (last steps) [''with'', ''runners''] = Inr (PStr ''a b a''))"
proof -
  have n: "slug_name_no_ext ''a.py'' = ''a''" "slug_name_no_ext ''b/'' = ''b''"
    by code_simp+
  show ?thesis
    using reporter_runners[of empty_heap
      "\<lparr>slugs = [''a.py'', ''b/'', ''a.py''], force = False, outfile = ''out.yml''\<rparr>" 0 empty_heap]
    by (simp add: n)
qed

subsection \<open>C8: no marker in the logical step sequence\<close>

text \<open>
  C8. The steps list of every built document has no \<^verbatim>\<open>BlankLine\<close> entry. The list
  representer of the program, whatever \<^verbatim>\<open>recursive_objects\<close> holds, hands to the original
  representer either the list it was given or a list it has just created, and every list
  that existed before, the steps list among them, has the contents it had. A dump with the
  program's dumper class leaves the heap as it found it.
\<close>

theorem no_blank_line_in_steps:
  "(\<exists>steps. built_steps h args = Inr steps \<and> PBlankLine \<notin> set steps)
   \<and> (represent_list_with_extra_blank_lines (\<lambda>h1 a1. Inr (h1, a1)) ro h0 data = Inr (h1, a1) \<longrightarrow>
        (\<forall>a<next_free h0. cells h1 a = cells h0 a) \<and> (a1 = data \<or> a1 = next_free h0))
   \<and> (represent_data n BlankLineStepsDumper ro h0 v = Inr (h2, doc) \<longrightarrow> h2 = h0)"
proof -
  have "PBlankLine \<notin> set (concat (map slug_steps (slugs args)))"
    by (induction "slugs args" arbitrary: args) (auto simp: slug_steps_def grading_step_def export_step_def)
  then have "\<exists>steps. built_steps h args = Inr steps \<and> PBlankLine \<notin> set steps"
    by (simp add: built_steps_eq checkout_step_def install_step_def reporter_step_def)
  then show ?thesis
    using extra_blank_lines_heap[of ro h0 data h1 a1] represent_data_heap[of n ro h0 v h2 doc]
    by blast
qed

theorem no_blank_line_in_steps_witness:
  "represent_list_with_extra_blank_lines (\<lambda>h1 a1. Inr (h1, a1))
      (Some [PTuple [PDict [(''steps'', PList 0)], PStr ''x'']])
      (Heap ((\<lambda>a. [])(0 := [PStr ''a'', PStr ''b''])) 1) 0
    = Inr (Heap ((\<lambda>a. [])(0 := [PStr ''a'', PStr ''b''], 1 := [PStr ''a'', PBlankLine, PStr ''b''])) 2, 1)
   \<and> cells (Heap ((\<lambda>a. [])(0 := [PStr ''a'', PStr ''b''], 1 := [PStr ''a'', PBlankLine, PStr ''b''])) 2) 0
       = cells (Heap ((\<lambda>a. [])(0 := [PStr ''a'', PStr ''b''])) 1) 0"
proof -
  have e: "represent_list_with_extra_blank_lines (\<lambda>h1 a1. Inr (h1, a1))
      (Some [PTuple [PDict [(''steps'', PList 0)], PStr ''x'']])
      (Heap ((\<lambda>a. [])(0 := [PStr ''a'', PStr ''b''])) 1) 0
    = Inr (Heap ((\<lambda>a. [])(0 := [PStr ''a'', PStr ''b''], 1 := [PStr ''a'', PBlankLine, PStr ''b''])) 2, 1)"
    by (simp add: represent_list_with_extra_blank_lines_def alloc_def heap_append_def)
  from no_blank_line_in_steps[of empty_heap "\<lparr>slugs = [''a''], force = False, outfile = ''o''\<rparr>"
         "Some [PTuple [PDict [(''steps'', PList 0)], PStr ''x'']]"
         "Heap ((\<lambda>a. [])(0 := [PStr ''a'', PStr ''b''])) 1" 0
         "Heap ((\<lambda>a. [])(0 := [PStr ''a'', PStr ''b''], 1 := [PStr ''a'', PBlankLine, PStr ''b''])) 2" 1]
       e
  show ?thesis by simp
qed

subsection \<open>C9: the style of multi-line strings\<close>

text \<open>
  C9. The claim does not hold of the program. For the slug \<^verbatim>\<open>x \<close> followed by a line feed
  and \<^verbatim>\<open>y\<close>, which the argument parser accepts, the grading step's command is a string
  with a line feed, and the node the dump makes of it asks for the literal block style, as
  \<^verbatim>\<open>str_presenter\<close> intends. But the text has a space right before the line feed, so the
  emitter does not allow a block scalar and writes the string double-quoted. The last
  conjunct shows a string for which the request is granted: the script of the
  dependency-install step.
\<close>

theorem multiline_string_written_quoted:
  "(case rendered_steps empty_heap \<lparr>slugs = [''x \<newline>y''], force = False, outfile = ''out.yml''\<rparr> of
      Inl e \<Rightarrow> None
    | Inr ns \<Rightarrow> (case node_value (ns ! 2) ''with'' of None \<Rightarrow> None | Some w \<Rightarrow> node_value w ''command''))
     = Some (ScalarNode ''tag:yaml.org,2002:str''
               ''check50 x \<newline>y --dev -o json --autograder ./autograder/x \<newline>y.json --feedback ./feedback/x \<newline>y.txt''
               (Some CHR ''|''))
   \<and> CHR 0x0A \<in> set ''check50 x \<newline>y --dev -o json --autograder ./autograder/x \<newline>y.json --feedback ./feedback/x \<newline>y.txt''
   \<and> \<not> allow_block ''check50 x \<newline>y --dev -o json --autograder ./autograder/x \<newline>y.json --feedback ./feedback/x \<newline>y.txt''
   \<and> choose_scalar_style ''check50 x \<newline>y --dev -o json --autograder ./autograder/x \<newline>y.json --feedback ./feedback/x \<newline>y.txt''
       = CHR 0x22
   \<and> choose_scalar_style ''apt-get update\<newline>apt-get install -y nodejs git jq\<newline>apt-get clean\<newline>rm -rf /var/lib/apt/lists/*\<newline>''
       = CHR ''|''"
  by code_simp

theorem multiline_string_written_quoted_witness:
  "choose_scalar_style ''check50 x \<newline>y --dev -o json --autograder ./autograder/x \<newline>y.json --feedback ./feedback/x \<newline>y.txt''
     \<noteq> CHR ''|''"
  using multiline_string_written_quoted by simp

subsection \<open>C10: a slug of separators only\<close>

text \<open>
  C10, as stated, gives the result-export step an empty name and an empty identifier. For
  the slug \<^verbatim>\<open>/\<close> the builder returns five steps; the result-export step among them is
  named \<^verbatim>\<open>Assign file contents to _RESULTS\<close>, which is not the empty string, and it has
  no \<^verbatim>\<open>id\<close> at all.
\<close>

theorem separator_only_slug_counterexample:
  "built_steps empty_heap \<lparr>slugs = [''/''], force = False, outfile = ''out.yml''\<rparr> =
     Inr [checkout_step, install_step, grading_step [] [], export_step [], reporter_step [[]]]
   \<and> getpath (export_step []) [''name''] = Inr (PStr ''Assign file contents to _RESULTS'')
   \<and> getpath (export_step []) [''name''] \<noteq> Inr (PStr [])
   \<and> getpath (export_step []) [''id''] = Inl KeyError"
proof -
  have n: "slug_name_no_ext ''/'' = []" "slug_clean ''/'' = []"
    by code_simp+
  show ?thesis
    by (simp add: built_steps_eq slug_steps_def n export_step_def getitem_def)
qed

text \<open>
  C10, amended. For a slug \<open>s\<close> made of path separators only, at any position of the slug
  list: the cleaned slug and the derived name are empty, and the builder succeeds. The two
  steps it appends for \<open>s\<close> are the grading step of the empty name, whose \<^verbatim>\<open>name\<close> and
  \<^verbatim>\<open>id\<close> are the empty string, and the result-export step of the empty name, which is
  named \<^verbatim>\<open>Assign file contents to _RESULTS\<close> and has no \<^verbatim>\<open>id\<close>. The list of produced
  names has the empty string at the slug's position, the reporter's environment has the key
  \<^verbatim>\<open>_RESULTS\<close>, and the runners value joins the names with the empty one in its place.
\<close>

theorem separator_only_slug:
  assumes "set s \<subseteq> {CHR ''/''}" and "slugs args = pre @ s # post"
  shows "slug_clean s = [] \<and> slug_name_no_ext s = []
     \<and> (\<exists>steps. built_steps h args = Inr steps
          \<and> steps ! (2 + 2 * length pre) = grading_step [] []
          \<and> steps ! (3 + 2 * length pre) = export_step []
          \<and> last steps = reporter_step (map slug_name_no_ext (slugs args)))
     \<and> getpath (grading_step [] []) [''name''] = Inr (PStr [])
     \<and> getpath (grading_step [] []) [''id''] = Inr (PStr [])
     \<and> getpath (export_step []) [''name''] = Inr (PStr ''Assign file contents to _RESULTS'')
     \<and> getpath (export_step []) [''id''] = Inl KeyError
     \<and> map slug_name_no_ext (slugs args) ! length pre = []
     \<and> map_of (env_map (map slug_name_no_ext (slugs args))) ''_RESULTS'' = Some (PStr ''${{ env._RESULTS }}'')
     \<and> getpath (reporter_step (map slug_name_no_ext (slugs args))) [''with'', ''runners'']
           = Inr (PStr (join '' '' (map slug_name_no_ext pre @ [] # map slug_name_no_ext post)))"
proof -
  have e: "slug_clean s = []" "slug_name_no_ext s = []" using only_seps[OF assms(1)] by simp_all
  have i: "length pre < length (slugs args)" "slugs args ! length pre = s" using assms(2) by simp_all
  from nth_slug_steps[OF i(1)] have
    g: "concat (map slug_steps (slugs args)) ! (2 * length pre) = grading_step [] []"
       "concat (map slug_steps (slugs args)) ! (2 * length pre + 1) = export_step []"
    by (simp_all add: i(2) e)
  have l: "2 * length pre + 1 < length (concat (map slug_steps (slugs args)))"
    using i(1) by (simp add: length_slug_steps)
  let ?steps = "[checkout_step, install_step] @ concat (map slug_steps (slugs args))
            @ [reporter_step (map slug_name_no_ext (slugs args))]"
  have "?steps ! (2 + 2 * length pre) = grading_step [] []"
    using g(1) l by (simp add: nth_append)
  moreover have "?steps ! (3 + 2 * length pre) = export_step []"
  proof -
    have "?steps ! (3 + 2 * length pre) = (concat (map slug_steps (slugs args))
            @ [reporter_step (map slug_name_no_ext (slugs args))]) ! (2 * length pre + 1)"
      by (simp add: numeral_3_eq_3)
    also have "\<dots> = export_step []" using g(2) l by (simp add: nth_append)
    finally show ?thesis .
  qed
  moreover have "map_of (env_map (map slug_name_no_ext (slugs args))) ''_RESULTS'' = Some (PStr ''${{ env._RESULTS }}'')"
    using env_map_lookup[of "[]" "map slug_name_no_ext (slugs args)"] assms(2) e by simp
  ultimately show ?thesis
    using e assms(2)
    by (simp add: built_steps_eq grading_step_def export_step_def reporter_step_def getitem_def nth_append)
qed

theorem separator_only_slug_witness:
  "slug_name_no_ext ''/'' = []
   \<and> (\<exists>steps. built_steps empty_heap \<lparr>slugs = [''a'', ''/'', ''b''], force = False, outfile = ''out.yml''\<rparr> = Inr steps
          \<and> steps ! 4 = grading_step [] [] \<and> steps ! 5 = export_step [])
   \<and> getpath (reporter_step [''a'', [], ''b'']) [''with'', ''runners''] = Inr (PStr ''a  b'')"
proof -
  have n: "slug_name_no_ext ''a'' = ''a''" "slug_name_no_ext ''b'' = ''b''"
    by code_simp+
  have h: "set ''/'' \<subseteq> {CHR ''/''}" by simp
  have a: "slugs \<lparr>slugs = [''a'', ''/'', ''b''], force = False, outfile = ''out.yml''\<rparr> = [''a''] @ ''/'' # [''b'']"
    by simp
  show ?thesis
    using separator_only_slug[OF h a, of empty_heap]
    by (auto simp: n)
qed

end
